theory Spec2Isabelle
  imports Complex_Main "HOL-Library.Sublist" "HOL-Library.Multiset"
begin

section \<open>JavaScript strings and arrays\<close>

text \<open>
  A JavaScript string is a sequence of UTF-16 code units and \<open>length\<close> counts them.
  The model reads a \<^typ>\<open>string\<close> as such a sequence, one \<^typ>\<open>char\<close> per code unit,
  for the code units below 256. In that range the white space of \<open>\s\<close> and of
  \<open>trim()\<close> is TAB, LF, VT, FF, CR, SPACE and NBSP, and the line terminators that
  \<open>.\<close> refuses are LF and CR.
\<close>

definition is_whitespace :: "char \<Rightarrow> bool" where
  "is_whitespace c =
     (c = CHR 0x09 \<or> c = CHR 0x0A \<or> c = CHR 0x0B \<or> c = CHR 0x0C \<or> c = CHR 0x0D
      \<or> c = CHR 0x20 \<or> c = CHR 0xA0)"

definition is_line_terminator :: "char \<Rightarrow> bool" where
  "is_line_terminator c = (c = CHR 0x0A \<or> c = CHR 0x0D)"

text \<open>The character class \<open>[a-zA-Z0-9_]\<close>.\<close>

definition is_word_char :: "char \<Rightarrow> bool" where
  "is_word_char c =
     (let n = (of_char c :: nat) in
        (97 \<le> n \<and> n \<le> 122) \<or> (65 \<le> n \<and> n \<le> 90) \<or> (48 \<le> n \<and> n \<le> 57) \<or> n = 95)"

text \<open>\<open>String.prototype.trim\<close>.\<close>

definition trim :: "string \<Rightarrow> string" where
  "trim s = rev (dropWhile is_whitespace (rev (dropWhile is_whitespace s)))"

text \<open>\<open>String.prototype.includes\<close>: the pattern occurs somewhere in the text.\<close>

fun str_includes :: "string \<Rightarrow> string \<Rightarrow> bool" where
  "str_includes [] pat = (pat = [])"
| "str_includes (c # cs) pat = (prefix pat (c # cs) \<or> str_includes cs pat)"

text \<open>The number of positions of a text at which a pattern starts.\<close>

fun occurrences :: "string \<Rightarrow> string \<Rightarrow> nat" where
  "occurrences pat [] = (if pat = [] then 1 else 0)"
| "occurrences pat (c # cs) = (if prefix pat (c # cs) then 1 else 0) + occurrences pat cs"

text \<open>
  \<open>Array.prototype.slice(0, end)\<close> for an integer \<open>end\<close>: a negative \<open>end\<close> counts
  from the end of the array.
\<close>

definition slice0 :: "int \<Rightarrow> 'a list \<Rightarrow> 'a list" where
  "slice0 e xs = (if 0 \<le> e then take (nat e) xs else take (nat (int (length xs) + e)) xs)"

text \<open>\<open>Array.prototype.join\<close> on an array of strings.\<close>

fun join :: "string \<Rightarrow> string list \<Rightarrow> string" where
  "join sep [] = []"
| "join sep [x] = x"
| "join sep (x # y # ys) = x @ sep @ join sep (y # ys)"

text \<open>A number inside a template literal: integers print in decimal.\<close>

definition digit :: "nat \<Rightarrow> char" where
  "digit n = char_of (48 + n)"

function show_nat :: "nat \<Rightarrow> string" where
  "show_nat n = (if n < 10 then [digit n] else show_nat (n div 10) @ [digit (n mod 10)])"
  by pat_completeness auto
termination
  by (relation "measure id") auto

declare show_nat.simps [simp del]

definition show_int :: "int \<Rightarrow> string" where
  "show_int i = (if i < 0 then CHR ''-'' # show_nat (nat (- i)) else show_nat (nat i))"

section \<open>Regular-expression replacement (\<open>src/lib/utils.ts\<close>, \<open>cleanRedditText\<close>)\<close>

text \<open>
  \<open>text.replace(/re/g, replacement)\<close> scans the text from the left. At each position a
  matcher says whether the expression matches there, and if so what replaces the match and
  how many characters the match consumes; the scan goes on behind the match. Where the
  expression does not match, the character is copied and the scan moves one position on.
  Every expression of \<open>cleanRedditText\<close> consumes at least one character.
\<close>

type_synonym matcher = "string \<Rightarrow> (string \<times> nat) option"

function replace_all :: "matcher \<Rightarrow> string \<Rightarrow> string" where
  "replace_all m [] = []"
| "replace_all m (c # cs) =
     (case m (c # cs) of
        None \<Rightarrow> c # replace_all m cs
      | Some (rep, n) \<Rightarrow>
          if n = 0 then rep @ c # replace_all m cs
          else rep @ replace_all m (drop n (c # cs)))"
  by pat_completeness auto
termination
  by (relation "measure (\<lambda>(m, s). length s)") auto

text \<open>
  The lazy group \<open>(.*?)\<close> followed by a closing delimiter: the shortest run of characters
  other than line terminators after which the delimiter stands.
\<close>

fun lazy_until :: "string \<Rightarrow> string \<Rightarrow> string option" where
  "lazy_until d [] = (if d = [] then Some [] else None)"
| "lazy_until d (c # cs) =
     (if prefix d (c # cs) then Some []
      else if is_line_terminator c then None
      else map_option ((#) c) (lazy_until d cs))"

text \<open>\<open>/D(.*?)D/g\<close> with replacement \<open>$1\<close>, for a delimiter \<open>D\<close>.\<close>

definition delimited :: "string \<Rightarrow> matcher" where
  "delimited d s =
     (if prefix d s then
        (case lazy_until d (drop (length d) s) of
           None \<Rightarrow> None
         | Some inner \<Rightarrow> Some (inner, length d + length inner + length d))
      else None)"

text \<open>\<open>/https?:\/\/[^\s]+/g\<close> with replacement \<open>[URL]\<close>.\<close>

definition url_tail :: "nat \<Rightarrow> string \<Rightarrow> (string \<times> nat) option" where
  "url_tail k s =
     (let run = takeWhile (\<lambda>c. \<not> is_whitespace c) (drop k s) in
        if run = [] then None else Some (''[URL]'', k + length run))"

definition url :: matcher where
  "url s =
     (if prefix ''https://'' s then url_tail 8 s
      else if prefix ''http://'' s then url_tail 7 s
      else None)"

text \<open>\<open>/\/r\/[a-zA-Z0-9_]+/g\<close> and \<open>/\/u\/[a-zA-Z0-9_]+/g\<close> with their placeholders.\<close>

definition mention :: "string \<Rightarrow> string \<Rightarrow> matcher" where
  "mention pre placeholder s =
     (if prefix pre s then
        (let run = takeWhile is_word_char (drop (length pre) s) in
           if run = [] then None else Some (placeholder, length pre + length run))
      else None)"

text \<open>\<open>/\n{3,}/g\<close> with replacement \<open>\n\n\<close> and \<open>/\s{2,}/g\<close> with replacement one space.\<close>

definition newlines :: matcher where
  "newlines s =
     (let run = takeWhile (\<lambda>c. c = CHR 0x0A) s in
        if 3 \<le> length run then Some ([CHR 0x0A, CHR 0x0A], length run) else None)"

definition spaces :: matcher where
  "spaces s =
     (let run = takeWhile is_whitespace s in
        if 2 \<le> length run then Some ('' '', length run) else None)"

definition cleanRedditText :: "string \<Rightarrow> string" where
  "cleanRedditText text =
     trim
      (replace_all spaces
        (replace_all newlines
          (replace_all (mention ''/u/'' ''[USER]'')
            (replace_all (mention ''/r/'' ''[SUBREDDIT]'')
              (replace_all url
                (replace_all (delimited [CHR 0x60])
                  (replace_all (delimited ''~~'')
                    (replace_all (delimited ''*'')
                      (replace_all (delimited ''**'') text)))))))))"

section \<open>Data model (\<open>src/types/index.ts\<close>)\<close>

text \<open>
  Scores, counts and times are JavaScript numbers; the model takes them as integers,
  and the upvote ratio as a real. \<open>created_utc\<close> is copied from the upstream record
  without a default, so it can be missing.
\<close>

record post =
  p_id :: string
  p_title :: string
  p_selftext :: string
  p_author :: string
  p_score :: int
  p_num_comments :: int
  p_created_utc :: "int option"
  p_url :: string
  p_subreddit :: string
  p_permalink :: string
  p_upvote_ratio :: real

datatype comment =
  Comment (c_id: string) (c_body: string) (c_author: string) (c_score: int)
    (c_created_utc: "int option") (c_depth: nat) (c_replies: "comment list option")

record snapshot =
  posts :: "post list"
  comments :: "comment list"
  subreddit :: string
  fetchedAt :: int

section \<open>Content normalizer (\<open>extractRedditContent\<close>)\<close>

definition post_separator :: string where
  "post_separator = [CHR 0x0A, CHR 0x0A] @ ''---'' @ [CHR 0x0A, CHR 0x0A]"

definition posts_end_marker :: string where
  "posts_end_marker = [CHR 0x0A, CHR 0x0A] @ ''===POSTS_END==='' @ [CHR 0x0A, CHR 0x0A]"

text \<open>The filter and the cap of the first chain: \<open>.filter(...).slice(0, 10)\<close>.\<close>

definition selectedPosts :: "post list \<Rightarrow> post list" where
  "selectedPosts ps =
     take 10 (filter (\<lambda>p. p_selftext p \<noteq> [] \<and> length (p_selftext p) > 50) ps)"

definition renderPost :: "post \<Rightarrow> string" where
  "renderPost p =
     ''POST ('' @ show_int (p_score p) @ '' upvotes): '' @ p_title p @ [CHR 0x0A]
       @ cleanRedditText (p_selftext p)"

definition postContent :: "post list \<Rightarrow> string" where
  "postContent ps = join post_separator (map renderPost (selectedPosts ps))"

text \<open>The second chain: \<open>.filter(...).slice(0, 15)\<close>.\<close>

definition selectedComments :: "comment list \<Rightarrow> comment list" where
  "selectedComments cs =
     take 15 (filter (\<lambda>c. c_body c \<noteq> [] \<and> length (c_body c) > 30 \<and> c_score c > 0) cs)"

definition renderComment :: "comment \<Rightarrow> string" where
  "renderComment c =
     ''COMMENT ('' @ show_int (c_score c) @ '' upvotes): '' @ cleanRedditText (c_body c)"

definition commentContent :: "comment list \<Rightarrow> string" where
  "commentContent cs = join post_separator (map renderComment (selectedComments cs))"

text \<open>\<open>[postContent, commentContent].filter(Boolean).join(marker)\<close>.\<close>

definition extractRedditContent :: "post list \<Rightarrow> comment list \<Rightarrow> string" where
  "extractRedditContent ps cs =
     join posts_end_marker (filter (\<lambda>s. s \<noteq> []) [postContent ps, commentContent cs])"

section \<open>Upstream records, errors and the network\<close>

text \<open>
  The fields of an upstream submission and of an upstream comment node that the code
  guards with \<open>||\<close> or tests for truth are optional; \<open>None\<close> stands for a field that is
  missing, \<open>undefined\<close> or \<open>null\<close>. Every child of a listing is taken to carry its
  \<open>data\<close> record, which the code reads without a guard.
\<close>

record raw_submission =
  rs_id :: string
  rs_title :: string
  rs_selftext :: "string option"
  rs_author :: "string option"
  rs_score :: "int option"
  rs_num_comments :: "int option"
  rs_created_utc :: "int option"
  rs_url :: string
  rs_subreddit :: string
  rs_permalink :: string
  rs_upvote_ratio :: "real option"
  rs_stickied :: "bool option"

record raw_comment =
  rc_kind :: string
  rc_id :: string
  rc_body :: "string option"
  rc_author :: "string option"
  rc_score :: "int option"
  rc_created_utc :: "int option"

text \<open>\<open>x || d\<close> on an optional string and \<open>x || 0\<close> on an optional number.\<close>

definition or_string :: "string option \<Rightarrow> string \<Rightarrow> string" where
  "or_string x d = (case x of None \<Rightarrow> d | Some s \<Rightarrow> if s = [] then d else s)"

definition or_zero :: "'a::zero option \<Rightarrow> 'a" where
  "or_zero x = (case x of None \<Rightarrow> 0 | Some n \<Rightarrow> n)"

text \<open>
  A thrown value: an \<open>Error\<close> with its message, and the fields the handlers look at
  (\<open>code\<close>, \<open>status\<close>, \<open>response.status\<close>), which \<open>new Error(message)\<close> leaves unset.
\<close>

record js_error =
  e_message :: string
  e_code :: "string option"
  e_status :: "nat option"
  e_response_status :: "nat option"

definition Error :: "string \<Rightarrow> js_error" where
  "Error msg = \<lparr>e_message = msg, e_code = None, e_status = None, e_response_status = None\<rparr>"

text \<open>
  What \<open>await fetch(...)\<close> followed by \<open>await response.json()\<close> can give: the fetch
  rejects, or it resolves to a response with a status, a status text and a body that
  parses to JSON or fails to.
\<close>

datatype 'a reply =
  Rejected js_error
| Response (status: nat) (statusText: string) (json: "js_error + 'a")

definition ok :: "nat \<Rightarrow> bool" where
  "ok st = (200 \<le> st \<and> st \<le> 299)"

datatype net_call =
  TokenRequest
| SubmissionsRequest string string int
| CommentsRequest string int
| GenerationRequest string

text \<open>
  The state of the process: the clock in milliseconds, the two fields of the
  \<open>RedditOAuthService\<close> singleton, and the network calls made so far.
\<close>

record world =
  now :: int
  accessToken :: "string option"
  tokenExpiry :: "int option"
  calls :: "net_call list"

record completion =
  content :: "string option"
  total_tokens :: "nat option"

text \<open>
  The collaborators: each answers a call from the state in which the call is made,
  and every call takes some time.
\<close>

record net =
  token_endpoint :: "world \<Rightarrow> string option reply"
  top_endpoint :: "world \<Rightarrow> string \<Rightarrow> string \<Rightarrow> int \<Rightarrow> raw_submission list option reply"
  comments_endpoint :: "world \<Rightarrow> string \<Rightarrow> int \<Rightarrow> raw_comment list option reply"
  completions :: "world \<Rightarrow> string \<Rightarrow> string \<Rightarrow> string \<Rightarrow> js_error + completion"
  duration :: "world \<Rightarrow> net_call \<Rightarrow> nat"

definition after_call :: "net \<Rightarrow> world \<Rightarrow> net_call \<Rightarrow> world" where
  "after_call net w c = w\<lparr>now := now w + int (duration net w c), calls := calls w @ [c]\<rparr>"

section \<open>Token cache (\<open>RedditOAuthService.getAccessToken\<close>)\<close>

definition auth_failure :: "js_error \<Rightarrow> js_error" where
  "auth_failure e = Error (''Failed to authenticate with Reddit API: '' @ e_message e)"

text \<open>The request to the token endpoint, made when the cache does not answer.\<close>

definition requestToken :: "net \<Rightarrow> world \<Rightarrow> (js_error + string) \<times> world" where
  "requestToken net w =
     (let w1 = after_call net w TokenRequest in
      case token_endpoint net w of
        Rejected e \<Rightarrow> (Inl (auth_failure e), w1)
      | Response st txt body \<Rightarrow>
          if \<not> ok st then
            (Inl (auth_failure (Error (''Reddit OAuth failed: '' @ show_nat st @ '' '' @ txt))), w1)
          else
            (case body of
               Inl e \<Rightarrow> (Inl (auth_failure e), w1)
             | Inr access_token \<Rightarrow>
                 let w2 = w1\<lparr>accessToken := access_token\<rparr> in
                 if or_string access_token [] = [] then
                   (Inl (auth_failure (Error ''No access token received from Reddit API'')), w2)
                 else
                   (Inr (or_string access_token []),
                    w2\<lparr>tokenExpiry := Some (now w2 + 50 * 60 * 1000)\<rparr>)))"

definition getAccessToken :: "net \<Rightarrow> world \<Rightarrow> (js_error + string) \<times> world" where
  "getAccessToken net w =
     (case accessToken w of
        None \<Rightarrow> requestToken net w
      | Some tok \<Rightarrow>
          (case tokenExpiry w of
             None \<Rightarrow> requestToken net w
           | Some expiry \<Rightarrow>
               if tok \<noteq> [] \<and> now w < expiry then (Inr tok, w) else requestToken net w))"

section \<open>Comments of one submission (\<open>RedditOAuthService.fetchComments\<close>)\<close>

text \<open>The test and the record of the loop over the comment listing.\<close>

definition keepComment :: "raw_comment \<Rightarrow> comment option" where
  "keepComment rc =
     (case rc_body rc of
        None \<Rightarrow> None
      | Some body \<Rightarrow>
          if rc_kind rc = ''t1'' \<and> body \<noteq> [] \<and> body \<noteq> ''[deleted]'' \<and> body \<noteq> ''[removed]''
          then Some (Comment (rc_id rc) body (or_string (rc_author rc) ''[deleted]'')
                      (or_zero (rc_score rc)) (rc_created_utc rc) 0 None)
          else None)"

text \<open>\<open>for (const comment of commentListing.slice(0, limit)) ...\<close>\<close>

definition collectComments :: "int \<Rightarrow> raw_comment list \<Rightarrow> comment list" where
  "collectComments limit commentListing = List.map_filter keepComment (slice0 limit commentListing)"

text \<open>
  What \<open>fetchComments\<close> returns for a listing. In \<open>ask-question/route.ts\<close> it is
  \<open>comments.filter(c => c.score > 0).slice(0, limit)\<close>, in \<open>reddit-data/route.ts\<close> it is
  \<open>comments\<close>.
\<close>

definition askQuestion_comments :: "int \<Rightarrow> raw_comment list \<Rightarrow> comment list" where
  "askQuestion_comments limit commentListing =
     slice0 limit (filter (\<lambda>c. c_score c > 0) (collectComments limit commentListing))"

definition redditData_comments :: "int \<Rightarrow> raw_comment list \<Rightarrow> comment list" where
  "redditData_comments limit commentListing = collectComments limit commentListing"

text \<open>The body of the \<open>try\<close> block of \<open>fetchComments\<close>.\<close>

definition fetchComments_try ::
  "net \<Rightarrow> world \<Rightarrow> string \<Rightarrow> int \<Rightarrow> (js_error + comment list) \<times> world" where
  "fetchComments_try net w submissionId limit =
     (case getAccessToken net w of
        (Inl e, w1) \<Rightarrow> (Inl e, w1)
      | (Inr tok, w1) \<Rightarrow>
          let w2 = after_call net w1 (CommentsRequest submissionId limit) in
          (case comments_endpoint net w1 submissionId limit of
             Rejected e \<Rightarrow> (Inl e, w2)
           | Response st txt body \<Rightarrow>
               if \<not> ok st then (Inl (Error (''Error fetching comments: '' @ show_nat st)), w2)
               else
                 (case body of
                    Inl e \<Rightarrow> (Inl e, w2)
                  | Inr None \<Rightarrow> (Inr [], w2)
                  | Inr (Some commentListing) \<Rightarrow>
                      (Inr (askQuestion_comments limit commentListing), w2))))"

text \<open>\<open>fetchComments\<close>: the \<open>catch\<close> turns every error into the empty list.\<close>

definition fetchComments :: "net \<Rightarrow> world \<Rightarrow> string \<Rightarrow> int \<Rightarrow> comment list \<times> world" where
  "fetchComments net w submissionId limit =
     (case fetchComments_try net w submissionId limit of
        (Inl e, w') \<Rightarrow> ([], w')
      | (Inr cs, w') \<Rightarrow> (cs, w'))"

section \<open>Snapshot (\<open>RedditOAuthService.fetchSubredditData\<close>)\<close>

definition timeMap :: "string \<Rightarrow> string" where
  "timeMap timeframe =
     (if timeframe = ''24h'' then ''day''
      else if timeframe = ''48h'' then ''day''
      else if timeframe = ''week'' then ''week''
      else ''day'')"

text \<open>The token and the request for the top submissions, up to \<open>data.data.children\<close>.\<close>

definition fetchTop ::
  "net \<Rightarrow> world \<Rightarrow> string \<Rightarrow> string \<Rightarrow> int \<Rightarrow> (js_error + raw_submission list) \<times> world" where
  "fetchTop net w sub timeframe limit =
     (case getAccessToken net w of
        (Inl e, w1) \<Rightarrow> (Inl e, w1)
      | (Inr tok, w1) \<Rightarrow>
          let w2 = after_call net w1 (SubmissionsRequest sub (timeMap timeframe) limit) in
          (case top_endpoint net w1 sub (timeMap timeframe) limit of
             Rejected e \<Rightarrow> (Inl e, w2)
           | Response st txt body \<Rightarrow>
               if \<not> ok st then
                 (if st = 404 then (Inl (Error (''Subreddit r/'' @ sub @ '' not found'')), w2)
                  else if st = 403 then
                    (Inl (Error (''Subreddit r/'' @ sub @ '' is private or banned'')), w2)
                  else (Inl (Error (''Reddit API error: '' @ show_nat st @ '' '' @ txt)), w2))
               else
                 (case body of
                    Inl e \<Rightarrow> (Inl e, w2)
                  | Inr None \<Rightarrow> (Inl (Error (''No data received from r/'' @ sub)), w2)
                  | Inr (Some children) \<Rightarrow> (Inr children, w2))))"

definition toPost :: "raw_submission \<Rightarrow> post" where
  "toPost r =
     \<lparr>p_id = rs_id r,
      p_title = rs_title r,
      p_selftext = or_string (rs_selftext r) [],
      p_author = or_string (rs_author r) ''[deleted]'',
      p_score = or_zero (rs_score r),
      p_num_comments = or_zero (rs_num_comments r),
      p_created_utc = rs_created_utc r,
      p_url = rs_url r,
      p_subreddit = rs_subreddit r,
      p_permalink = rs_permalink r,
      p_upvote_ratio = or_zero (rs_upvote_ratio r)\<rparr>"

definition stickied :: "raw_submission \<Rightarrow> bool" where
  "stickied r = (rs_stickied r = Some True)"

text \<open>The loop over the submissions, with the two arrays it fills.\<close>

fun processSubmissions ::
  "net \<Rightarrow> raw_submission list \<Rightarrow> post list \<Rightarrow> comment list \<Rightarrow> world
     \<Rightarrow> post list \<times> comment list \<times> world" where
  "processSubmissions net [] ps allComments w = (ps, allComments, w)"
| "processSubmissions net (child # rest) ps allComments w =
     (if \<not> stickied child then
        (let ps' = ps @ [toPost child] in
         if length ps' \<le> 5 then
           (case fetchComments net w (rs_id child) 10 of
              (cs, w') \<Rightarrow> processSubmissions net rest ps' (allComments @ cs) w')
         else processSubmissions net rest ps' allComments w)
      else processSubmissions net rest ps allComments w)"

text \<open>
  \<open>xs.sort((a, b) => b.score - a.score)\<close>: the sort of JavaScript arrays is stable, and
  on integer scores the comparator orders by score, highest first.
\<close>

definition sortPosts :: "post list \<Rightarrow> post list" where
  "sortPosts ps = sort_key (\<lambda>p. - p_score p) ps"

definition sortComments :: "comment list \<Rightarrow> comment list" where
  "sortComments cs = sort_key (\<lambda>c. - c_score c) cs"

definition fetchSubredditData ::
  "net \<Rightarrow> world \<Rightarrow> string \<Rightarrow> string \<Rightarrow> int \<Rightarrow> (js_error + snapshot) \<times> world" where
  "fetchSubredditData net w sub timeframe limit =
     (case fetchTop net w sub timeframe limit of
        (Inl e, w1) \<Rightarrow> (Inl e, w1)
      | (Inr children, w1) \<Rightarrow>
          (case processSubmissions net (slice0 limit children) [] [] w1 of
             (ps, allComments, w2) \<Rightarrow>
               (Inr \<lparr>posts = sortPosts ps, comments = sortComments allComments,
                     subreddit = sub, fetchedAt = now w2\<rparr>, w2)))"

section \<open>The two other comment filters of the repository\<close>

text \<open>
  The earlier \<open>reddit-data\<close> route reads comments through the snoowrap client:
  \<open>transformComment\<close> turns a client comment into a \<open>RedditComment\<close>, with at most
  three replies per level, and \<open>fetchSubredditData\<close> keeps, of the first ten comments
  of a submission, those with a body that is neither deleted nor removed and with a
  positive score. An absent or empty \<open>replies\<close> array is the empty list.
\<close>

datatype snoo_comment =
  SnooComment (sc_id: string) (sc_body: "string option") (sc_author_name: "string option")
    (sc_score: "int option") (sc_created_utc: "int option") (sc_replies: "snoo_comment list")

function transformComment :: "snoo_comment \<Rightarrow> nat \<Rightarrow> comment" where
  "transformComment (SnooComment i body author score created replies) depth =
     Comment i (or_string body []) (or_string author ''[deleted]'') (or_zero score) created depth
       (if replies \<noteq> []
        then Some (map (\<lambda>reply. transformComment reply (depth + 1)) (take 3 replies))
        else None)"
  by pat_completeness auto
termination
proof (relation "measure (\<lambda>(c, d). size c)")
  show "wf (measure (\<lambda>(c, d). size c))" by simp
next
  fix i body author score created replies depth and reply :: snoo_comment
  assume "reply \<in> set (take 3 replies)"
  then have "reply \<in> set replies" by (rule in_set_takeD)
  then have "size reply \<le> size_list size replies" by (rule size_list_estimation') simp
  then show "((reply, depth + 1), SnooComment i body author score created replies, depth)
      \<in> measure (\<lambda>(c, d). size c)" by simp
qed

definition snoowrap_comments :: "snoo_comment list \<Rightarrow> comment list" where
  "snoowrap_comments listing =
     filter (\<lambda>c. c_body c \<noteq> [] \<and> c_body c \<noteq> ''[deleted]'' \<and> c_body c \<noteq> ''[removed]''
                 \<and> c_score c > 0)
       (map (\<lambda>c. transformComment c 0) (take 10 listing))"

text \<open>
  The two orders that the specification names, over any test \<open>P\<close>: excluding before
  capping at the limit, and capping first and filtering afterwards.
\<close>

definition spec_filter_then_cap :: "('a \<Rightarrow> bool) \<Rightarrow> nat \<Rightarrow> 'a list \<Rightarrow> 'a list" where
  "spec_filter_then_cap P limit xs = take limit (filter P xs)"

definition spec_cap_then_filter :: "('a \<Rightarrow> bool) \<Rightarrow> nat \<Rightarrow> 'a list \<Rightarrow> 'a list" where
  "spec_cap_then_filter P limit xs = filter P (take limit xs)"

text \<open>An upstream comment node that passes both the body test and the score test.\<close>

definition qualifying :: "raw_comment \<Rightarrow> bool" where
  "qualifying rc = (case keepComment rc of None \<Rightarrow> False | Some c \<Rightarrow> 0 < c_score c)"

section \<open>Input validation (\<open>src/lib/utils.ts\<close>, \<open>src/lib/constants.ts\<close>)\<close>

record validation =
  isValid :: bool
  v_error :: "string option"

text \<open>\<open>VALIDATION.SUBREDDIT.PATTERN.test\<close>, for the pattern \<open>/^[a-zA-Z0-9_]+$/\<close>.\<close>

definition SUBREDDIT_PATTERN_test :: "string \<Rightarrow> bool" where
  "SUBREDDIT_PATTERN_test s = (s \<noteq> [] \<and> list_all is_word_char s)"

definition validateSubreddit :: "string \<Rightarrow> validation" where
  "validateSubreddit s =
     (if s = [] then \<lparr>isValid = False, v_error = Some ''Subreddit name is required''\<rparr>
      else if length s < 1 then \<lparr>isValid = False, v_error = Some ''Subreddit name is too short''\<rparr>
      else if length s > 50 then \<lparr>isValid = False, v_error = Some ''Subreddit name is too long''\<rparr>
      else if \<not> SUBREDDIT_PATTERN_test s then
        \<lparr>isValid = False,
         v_error = Some ''Subreddit name can only contain letters, numbers, and underscores''\<rparr>
      else \<lparr>isValid = True, v_error = None\<rparr>)"

definition QUESTION_TOO_SHORT :: string where
  "QUESTION_TOO_SHORT = ''Please enter a question with at least 5 characters.''"

definition QUESTION_TOO_LONG :: string where
  "QUESTION_TOO_LONG = ''Question is too long. Please keep it under 500 characters.''"

definition validateQuestion :: "string \<Rightarrow> validation" where
  "validateQuestion question =
     (if question = [] \<or> length (trim question) = 0 then
        \<lparr>isValid = False, v_error = Some ''Question is required''\<rparr>
      else
        (let trimmedQuestion = trim question in
         if length trimmedQuestion < 5 then \<lparr>isValid = False, v_error = Some QUESTION_TOO_SHORT\<rparr>
         else if length trimmedQuestion > 500 then
           \<lparr>isValid = False, v_error = Some QUESTION_TOO_LONG\<rparr>
         else \<lparr>isValid = True, v_error = None\<rparr>))"

text \<open>The pattern \<open>^[A-Za-z0-9_]{1,50}$\<close> of the specification.\<close>

definition spec_forum_pattern :: "string \<Rightarrow> bool" where
  "spec_forum_pattern s = (1 \<le> length s \<and> length s \<le> 50 \<and> list_all is_word_char s)"

section \<open>Answering a question (\<open>ask-question/route.ts\<close>)\<close>

record source =
  s_title :: string
  s_url :: string
  s_type :: string

record ai_response =
  ai_answer :: string
  ai_sources :: "source list"
  ai_confidence :: real
  ai_model :: string
  ai_tokens_used :: "nat option"

text \<open>
  The JSON response of the route: the data, or a status with an error message. The
  request is the body after \<open>request.json()\<close>, with \<open>None\<close> for a field that is not there.
\<close>

datatype api_response =
  ApiSuccess ai_response
| ApiFailure nat string

record ask_request =
  req_subreddit :: "string option"
  req_question :: "string option"
  req_model :: "string option"

definition systemPrompt :: "string \<Rightarrow> string" where
  "systemPrompt sub =
     join [CHR 0x0A]
      [''You are an AI assistant that analyzes Reddit discussions and provides comprehensive, well-structured answers to user questions.'',
       [],
       ''Your task is to:'',
       ''1. Analyze the provided Reddit posts and comments from r/'' @ sub,
       ''2. Synthesize the information to answer the user'' @ [CHR 0x27] @ ''s question'',
       ''3. Provide a balanced, informative response based on the community discussions'',
       ''4. Include relevant insights, trends, and perspectives from the Reddit content'',
       ''5. Be objective and acknowledge different viewpoints when they exist'',
       [],
       ''Guidelines:'',
       ''- Focus on factual information and community consensus'',
       ''- Highlight interesting insights or unique perspectives'',
       ''- If there are conflicting opinions, present multiple viewpoints'',
       ''- Keep your response structured and easy to read'',
       ''- Don'' @ [CHR 0x27] @ ''t make assumptions beyond what'' @ [CHR 0x27]
          @ ''s discussed in the Reddit content'',
       ''- If the Reddit content doesn'' @ [CHR 0x27]
          @ ''t adequately address the question, mention this limitation'',
       [],
       ''Format your response in a clear, readable manner with appropriate paragraphs.'']"

definition userPrompt :: "string \<Rightarrow> string \<Rightarrow> string \<Rightarrow> string" where
  "userPrompt question redditContent sub =
     join [CHR 0x0A]
      [''Question: '' @ question,
       [],
       ''Reddit Content from r/'' @ sub @ '':'',
       redditContent,
       [],
       ''Please provide a comprehensive answer based on the Reddit discussions above.'']"

definition generateAIResponse ::
  "net \<Rightarrow> world \<Rightarrow> string \<Rightarrow> string \<Rightarrow> string \<Rightarrow> string \<Rightarrow> (js_error + ai_response) \<times> world" where
  "generateAIResponse net w question redditContent sub model =
     (let w1 = after_call net w (GenerationRequest model) in
      case completions net w model (systemPrompt sub) (userPrompt question redditContent sub) of
        Inl e \<Rightarrow> (Inl e, w1)
      | Inr completion \<Rightarrow>
          (Inr \<lparr>ai_answer = or_string (content completion) ''No response generated'',
                ai_sources =
                  [\<lparr>s_title = ''Recent discussions in r/'' @ sub,
                    s_url = ''https://reddit.com/r/'' @ sub,
                    s_type = ''post''\<rparr>],
                ai_confidence = 0.85,
                ai_model = model,
                ai_tokens_used = total_tokens completion\<rparr>, w1))"

text \<open>\<open>handleApiError\<close>, of which the route uses the message.\<close>

definition handleApiError :: "js_error \<Rightarrow> string \<times> string" where
  "handleApiError e =
     (if e_response_status e = Some 404 then
        (''Subreddit not found. Please check the spelling and try again.'', ''reddit_api'')
      else if e_response_status e = Some 429 then
        (''Too many requests. Please wait a moment before trying again.'', ''network'')
      else if e_code e = Some ''ENOTFOUND'' \<or> e_code e = Some ''ECONNREFUSED'' then
        (''Network error. Please check your connection and try again.'', ''network'')
      else if str_includes (e_message e) ''OpenAI'' then
        (''Failed to generate answer. Please try again.'', ''openai_api'')
      else (or_string (Some (e_message e)) ''Something went wrong. Please try again.'', ''unknown''))"

text \<open>The \<open>catch\<close> block of \<open>POST\<close>.\<close>

definition errorResponse :: "js_error \<Rightarrow> api_response" where
  "errorResponse e =
     ApiFailure
       (if e_code e = Some ''insufficient_quota'' \<or> str_includes (e_message e) ''quota'' then 429
        else if e_status e = Some 401 \<or> str_includes (e_message e) ''API key'' then 401
        else 500)
       (fst (handleApiError e))"

definition DEFAULT_MODEL :: string where
  "DEFAULT_MODEL = ''gpt-4o-mini''"

definition POST :: "net \<Rightarrow> world \<Rightarrow> ask_request \<Rightarrow> api_response \<times> world" where
  "POST net w request =
     (let sub = or_string (req_subreddit request) [];
          question = or_string (req_question request) [];
          model = (case req_model request of None \<Rightarrow> DEFAULT_MODEL | Some m \<Rightarrow> m)
      in
      if sub = [] \<or> question = [] then
        (ApiFailure 400 ''Subreddit and question are required'', w)
      else if model \<notin> set [''gpt-4o-mini'', ''gpt-3.5-turbo''] then
        (ApiFailure 400 ''Invalid model specified'', w)
      else
        (case fetchSubredditData net w sub ''24h'' 25 of
           (Inl e, w1) \<Rightarrow> (errorResponse e, w1)
         | (Inr redditData, w1) \<Rightarrow>
             if length (posts redditData) = 0 then
               (ApiFailure 404 ''No recent content available for this subreddit'', w1)
             else
               (let redditContent =
                      extractRedditContent (posts redditData) (comments redditData)
                in
                if redditContent = [] \<or> length redditContent < 100 then
                  (ApiFailure 404 ''Insufficient recent content in this subreddit'', w1)
                else
                  (case generateAIResponse net w1 question redditContent sub model of
                     (Inl e, w2) \<Rightarrow> (errorResponse e, w2)
                   | (Inr aiResponse, w2) \<Rightarrow> (ApiSuccess aiResponse, w2)))))"

definition response_status :: "api_response \<Rightarrow> nat" where
  "response_status r = (case r of ApiSuccess d \<Rightarrow> 200 | ApiFailure st msg \<Rightarrow> st)"

section \<open>The submit handler of the page (\<open>src/app/page.tsx\<close>, \<open>handleSubmitQuestion\<close>)\<close>

text \<open>
  The handler validates the forum name and the question, shows the validation error
  and returns when either fails, and otherwise posts the request to the route. The
  model runs the route in place of the HTTP request and keeps of the page state the
  fields that the handler reads.
\<close>

record app_state =
  selectedSubreddit :: string
  customSubreddit :: string
  question :: string
  selectedModel :: string

datatype submit_outcome =
  ToastError string
| Answered api_response

definition handleSubmitQuestion :: "net \<Rightarrow> world \<Rightarrow> app_state \<Rightarrow> submit_outcome \<times> world" where
  "handleSubmitQuestion net w appState =
     (let currentSubreddit =
            (if selectedSubreddit appState = ''custom'' then customSubreddit appState
             else selectedSubreddit appState);
          subredditValidation = validateSubreddit currentSubreddit
      in
      if \<not> isValid subredditValidation then
        (ToastError (or_string (v_error subredditValidation) []), w)
      else
        (let questionValidation = validateQuestion (question appState) in
         if \<not> isValid questionValidation then
           (ToastError (or_string (v_error questionValidation) []), w)
         else
           (case POST net w
                   \<lparr>req_subreddit = Some currentSubreddit,
                    req_question = Some (question appState),
                    req_model = Some (selectedModel appState)\<rparr> of
              (r, w') \<Rightarrow> (Answered r, w'))))"

section \<open>Auxiliary notions for the statements\<close>

text \<open>The submissions that the loop keeps, in the order of the upstream listing.\<close>

definition retained :: "raw_submission list \<Rightarrow> raw_submission list" where
  "retained children = filter (\<lambda>r. \<not> stickied r) children"

text \<open>
  \<open>fetchComments(id, 10)\<close> for each identifier of a list in turn, the results
  appended in that order.
\<close>

fun fetchCommentsFor :: "net \<Rightarrow> world \<Rightarrow> string list \<Rightarrow> comment list \<times> world" where
  "fetchCommentsFor net w [] = ([], w)"
| "fetchCommentsFor net w (submissionId # rest) =
     (case fetchComments net w submissionId 10 of
        (cs, w1) \<Rightarrow> (case fetchCommentsFor net w1 rest of (cs', w2) \<Rightarrow> (cs @ cs', w2)))"

definition is_generation :: "net_call \<Rightarrow> bool" where
  "is_generation c = (case c of GenerationRequest m \<Rightarrow> True | _ \<Rightarrow> False)"

definition is_comments_request :: "net_call \<Rightarrow> bool" where
  "is_comments_request c = (case c of CommentsRequest i n \<Rightarrow> True | _ \<Rightarrow> False)"

definition body_present :: "comment \<Rightarrow> bool" where
  "body_present c = (c_body c \<noteq> [] \<and> c_body c \<noteq> ''[deleted]'' \<and> c_body c \<noteq> ''[removed]'')"

section \<open>Example inputs\<close>

definition textPost :: "string \<Rightarrow> int \<Rightarrow> string \<Rightarrow> post" where
  "textPost t s body =
     \<lparr>p_id = ''p1'', p_title = t, p_selftext = body, p_author = ''alice'', p_score = s,
      p_num_comments = 0, p_created_utc = Some 0, p_url = [], p_subreddit = ''test'',
      p_permalink = [], p_upvote_ratio = 1\<rparr>"

definition textComment :: "int \<Rightarrow> string \<Rightarrow> comment" where
  "textComment s body = Comment ''c1'' body ''bob'' s (Some 0) 0 None"

definition demo_submission :: "string \<Rightarrow> int option \<Rightarrow> bool \<Rightarrow> raw_submission" where
  "demo_submission i s sticky =
     \<lparr>rs_id = i, rs_title = ''Title '' @ i, rs_selftext = Some (replicate 60 CHR ''x''),
      rs_author = None, rs_score = s, rs_num_comments = None, rs_created_utc = None,
      rs_url = [], rs_subreddit = ''test'', rs_permalink = [], rs_upvote_ratio = None,
      rs_stickied = Some sticky\<rparr>"

definition demo_listing :: "raw_submission list" where
  "demo_listing =
     [demo_submission ''a'' (Some 10) False, demo_submission ''s'' (Some 99) True,
      demo_submission ''b'' (Some 50) False, demo_submission ''c'' (Some 5) False]"

definition demo_comment_node :: "string \<Rightarrow> int \<Rightarrow> raw_comment" where
  "demo_comment_node i s =
     \<lparr>rc_kind = ''t1'', rc_id = i, rc_body = Some (replicate 40 CHR ''y''),
      rc_author = Some ''bob'', rc_score = Some s, rc_created_utc = Some 0\<rparr>"

text \<open>
  A network in which every call takes 100 ms, the token endpoint grants a token, the
  forum has three submissions and a pinned one, and the comments of submission \<open>b\<close>
  cannot be fetched.
\<close>

definition demo_net :: net where
  "demo_net =
     \<lparr>token_endpoint = (\<lambda>w. Response 200 ''OK'' (Inr (Some ''token-1''))),
      top_endpoint = (\<lambda>w sub t limit. Response 200 ''OK'' (Inr (Some demo_listing))),
      comments_endpoint = (\<lambda>w sid limit.
         if sid = ''b'' then Response 500 ''Internal Server Error'' (Inl (Error ''no body''))
         else Response 200 ''OK''
                (Inr (Some [demo_comment_node (sid @ ''1'') 3, demo_comment_node (sid @ ''2'') 0,
                            demo_comment_node (sid @ ''3'') 7]))),
      completions = (\<lambda>w model sys usr.
         Inr \<lparr>content = Some ''An answer'', total_tokens = Some 120\<rparr>),
      duration = (\<lambda>w c. 100)\<rparr>"

text \<open>A forum with seven submissions, each with twelve well-liked comments.\<close>

definition busy_listing :: "raw_submission list" where
  "busy_listing =
     map (\<lambda>i. demo_submission i (Some 1) False) [''a'', ''b'', ''c'', ''d'', ''e'', ''f'', ''g'']"

definition busy_net :: net where
  "busy_net =
     demo_net
      \<lparr>top_endpoint := (\<lambda>w sub t limit. Response 200 ''OK'' (Inr (Some busy_listing))),
       comments_endpoint := (\<lambda>w sid limit.
         Response 200 ''OK'' (Inr (Some (replicate 12 (demo_comment_node sid 4)))))\<rparr>"

text \<open>A forum without submissions.\<close>

definition empty_net :: net where
  "empty_net = demo_net\<lparr>top_endpoint := (\<lambda>w sub t limit. Response 200 ''OK'' (Inr (Some [])))\<rparr>"

text \<open>A forum whose only submission has a short body and one comment.\<close>

definition sparse_net :: net where
  "sparse_net =
     demo_net
      \<lparr>top_endpoint := (\<lambda>w sub t limit.
         Response 200 ''OK''
           (Inr (Some [(demo_submission ''a'' (Some 3) False)\<lparr>rs_selftext := Some ''too short''\<rparr>]))),
       comments_endpoint := (\<lambda>w sid limit.
         Response 200 ''OK'' (Inr (Some [demo_comment_node ''a1'' 7])))\<rparr>"

definition start :: world where
  "start = \<lparr>now = 0, accessToken = None, tokenExpiry = None, calls = []\<rparr>"

definition start_fetched :: world where
  "start_fetched =
     \<lparr>now = 100, accessToken = Some ''token-1'', tokenExpiry = Some 3000100,
      calls = [TokenRequest]\<rparr>"

section \<open>Lemmas: strings and the normalizer\<close>

lemma show_nat_nonempty: "show_nat n \<noteq> []"
  by (subst show_nat.simps) simp

lemma renderPost_nonempty: "renderPost p \<noteq> []"
  by (simp add: renderPost_def)

lemma renderComment_nonempty: "renderComment c \<noteq> []"
  by (simp add: renderComment_def)

lemma join_Nil_iff:
  "list_all (\<lambda>x. x \<noteq> []) xs \<Longrightarrow> (join sep xs = []) = (xs = [])"
  by (induction sep xs rule: join.induct) auto

lemma postContent_Nil_iff: "(postContent ps = []) = (selectedPosts ps = [])"
  unfolding postContent_def
  by (subst join_Nil_iff) (simp_all add: list_all_iff renderPost_nonempty)

lemma commentContent_Nil_iff: "(commentContent cs = []) = (selectedComments cs = [])"
  unfolding commentContent_def
  by (subst join_Nil_iff) (simp_all add: list_all_iff renderComment_nonempty)

lemma in_take_filter:
  assumes "P x" and "length (filter P pre) < n"
  shows "x \<in> set (take n (filter P (pre @ x # suf)))"
proof -
  obtain k where k: "n - length (filter P pre) = Suc k"
    using assms(2) by (metis Suc_diff_Suc)
  show ?thesis using assms(1) k by simp
qed

lemma occurrences_ge1: "pat \<noteq> [] \<Longrightarrow> 1 \<le> occurrences pat (a @ pat @ b)"
proof (induction a)
  case Nil
  then show ?case by (cases pat) simp_all
next
  case (Cons x a)
  then show ?case by simp
qed

lemma extract_cases:
  "extractRedditContent ps cs =
     (if selectedPosts ps = [] then commentContent cs
      else if selectedComments cs = [] then postContent ps
      else postContent ps @ posts_end_marker @ commentContent cs)"
proof -
  have p: "postContent ps = [] \<longleftrightarrow> selectedPosts ps = []"
    by (rule postContent_Nil_iff)
  have c: "commentContent cs = [] \<longleftrightarrow> selectedComments cs = []"
    by (rule commentContent_Nil_iff)
  show ?thesis
  proof (cases "selectedPosts ps = []")
    case True
    with p have "postContent ps = []" by simp
    then show ?thesis using True
      by (cases "commentContent cs = []") (simp_all add: extractRedditContent_def)
  next
    case False
    with p have np: "postContent ps \<noteq> []" by simp
    show ?thesis
    proof (cases "selectedComments cs = []")
      case True
      with c have "commentContent cs = []" by simp
      then show ?thesis using np False True by (simp add: extractRedditContent_def)
    next
      case nc: False
      with c have "commentContent cs \<noteq> []" by simp
      then show ?thesis using np False nc by (simp add: extractRedditContent_def)
    qed
  qed
qed

lemma extract_Nil_iff:
  "(extractRedditContent ps cs = []) = (selectedPosts ps = [] \<and> selectedComments cs = [])"
  using postContent_Nil_iff [of ps] commentContent_Nil_iff [of cs]
  by (simp add: extract_cases)

lemma selectedPosts_eq:
  "selectedPosts ps = take 10 (filter (\<lambda>p. 50 < length (p_selftext p)) ps)"
  unfolding selectedPosts_def by (rule arg_cong [where f = "take 10"], rule filter_cong [OF refl]) auto

lemma selectedComments_eq:
  "selectedComments cs = take 15 (filter (\<lambda>c. 30 < length (c_body c) \<and> 0 < c_score c) cs)"
  unfolding selectedComments_def by (rule arg_cong [where f = "take 15"], rule filter_cong [OF refl]) auto

section \<open>Lemmas: the token cache\<close>

lemma requestToken_calls: "calls (snd (requestToken net w)) = calls w @ [TokenRequest]"
  by (simp add: requestToken_def after_call_def Let_def split: reply.splits sum.splits)

lemma requestToken_Inr:
  assumes "requestToken net w = (Inr tok, w')"
  shows "tok \<noteq> [] \<and> accessToken w' = Some tok
       \<and> tokenExpiry w' = Some (now w' + 50 * 60 * 1000)
       \<and> now w' = now w + int (duration net w TokenRequest)"
  using assms
  by (auto simp: requestToken_def after_call_def Let_def or_string_def
           split: reply.splits sum.splits if_splits option.splits)

lemma getAccessToken_cached:
  assumes "accessToken w = Some tok" and "tok \<noteq> []" and "tokenExpiry w = Some e" and "now w < e"
  shows "getAccessToken net w = (Inr tok, w)"
  using assms by (simp add: getAccessToken_def)

lemma getAccessToken_expired:
  assumes "tokenExpiry w = Some e" and "e \<le> now w"
  shows "getAccessToken net w = requestToken net w"
  using assms by (simp add: getAccessToken_def split: option.splits)

lemma getAccessToken_fetched:
  assumes "getAccessToken net w = (r, w')" and "calls w' \<noteq> calls w"
  shows "requestToken net w = (r, w')"
  using assms by (auto simp: getAccessToken_def split: option.splits if_splits)

section \<open>Lemmas: comments and the snapshot\<close>

lemma slice0_length: "0 \<le> e \<Longrightarrow> length (slice0 e xs) \<le> nat e"
  by (simp add: slice0_def)

lemma askQuestion_comments_length:
  "0 \<le> limit \<Longrightarrow> length (askQuestion_comments limit listing) \<le> nat limit"
  by (simp add: askQuestion_comments_def slice0_length)

lemma fetchComments_length: "length (fst (fetchComments net w sid 10)) \<le> 10"
  using askQuestion_comments_length [of 10]
  by (auto simp: fetchComments_def fetchComments_try_def Let_def
           split: prod.splits sum.splits reply.splits option.splits)

lemma fetchCommentsFor_length:
  "length (fst (fetchCommentsFor net w ids)) \<le> 10 * length ids"
proof (induction ids arbitrary: w)
  case Nil
  then show ?case by simp
next
  case (Cons sid ids)
  obtain cs w1 where a: "fetchComments net w sid 10 = (cs, w1)"
    by (cases "fetchComments net w sid 10")
  obtain cs' w2 where b: "fetchCommentsFor net w1 ids = (cs', w2)"
    by (cases "fetchCommentsFor net w1 ids")
  have "length cs \<le> 10" using fetchComments_length [of net w sid] a by simp
  moreover have "length cs' \<le> 10 * length ids" using Cons.IH [of w1] b by simp
  ultimately show ?case using a b by simp
qed

lemma processSubmissions_eq:
  "processSubmissions net children ps acc w =
     (ps @ map toPost (retained children),
      acc @ fst (fetchCommentsFor net w (map rs_id (take (5 - length ps) (retained children)))),
      snd (fetchCommentsFor net w (map rs_id (take (5 - length ps) (retained children)))))"
proof (induction children arbitrary: ps acc w)
  case Nil
  then show ?case by (simp add: retained_def)
next
  case (Cons child rest)
  show ?case
  proof (cases "stickied child")
    case True
    then show ?thesis using Cons.IH [of ps acc w] by (simp add: retained_def)
  next
    case False
    show ?thesis
    proof (cases "length ps < 5")
      case True
      then obtain k where k: "5 - length ps = Suc k" by (metis Suc_diff_Suc)
      then have k': "5 - Suc (length ps) = k" by simp
      obtain cs w1 where a: "fetchComments net w (rs_id child) 10 = (cs, w1)"
        by (cases "fetchComments net w (rs_id child) 10")
      show ?thesis using False True k k' a Cons.IH [of "ps @ [toPost child]" "acc @ cs" w1]
        by (simp add: retained_def split: prod.splits)
    next
      case ge: False
      then have "5 - length ps = 0" "5 - Suc (length ps) = 0" by simp_all
      then show ?thesis using False ge Cons.IH [of "ps @ [toPost child]" acc w]
        by (simp add: retained_def)
    qed
  qed
qed

lemma fetchSubredditData_Inr:
  assumes "fetchTop net w sub tf limit = (Inr children, w1)"
  shows "fetchSubredditData net w sub tf limit =
     (Inr \<lparr>posts = sortPosts (map toPost (retained (slice0 limit children))),
           comments = sortComments (fst (fetchCommentsFor net w1
                         (map rs_id (take 5 (retained (slice0 limit children)))))),
           subreddit = sub,
           fetchedAt = now (snd (fetchCommentsFor net w1
                         (map rs_id (take 5 (retained (slice0 limit children))))))\<rparr>,
      snd (fetchCommentsFor net w1 (map rs_id (take 5 (retained (slice0 limit children))))))"
  using assms by (simp add: fetchSubredditData_def processSubmissions_eq case_prod_beta)

lemma fetchSubredditData_Inl:
  assumes "fetchTop net w sub tf limit = (Inl e, w1)"
  shows "fetchSubredditData net w sub tf limit = (Inl e, w1)"
  using assms by (simp add: fetchSubredditData_def)

lemma fetchSubredditData_cases:
  assumes "fetchSubredditData net w sub tf limit = (Inr snap, w')"
  obtains children w1 where "fetchTop net w sub tf limit = (Inr children, w1)"
  using assms by (auto simp: fetchSubredditData_def split: prod.splits sum.splits)

lemma sorted_desc_sort_key:
  fixes f :: "'a \<Rightarrow> int"
  shows "sorted_wrt (\<ge>) (map f (sort_key (\<lambda>x. - f x) xs))"
proof -
  have "sorted (map (\<lambda>x. - f x) (sort_key (\<lambda>x. - f x) xs))" by (rule sorted_sort_key)
  then show ?thesis by (simp add: sorted_map sorted_wrt_map)
qed

lemma stable_desc_sort_key:
  fixes f :: "'a \<Rightarrow> int"
  shows "filter (\<lambda>x. f x = k) (sort_key (\<lambda>x. - f x) xs) = filter (\<lambda>x. f x = k) xs"
  using sort_key_stable [of "\<lambda>x. - f x" "- k" xs] by simp

lemma fetchTop_comments_endpoint:
  "fetchTop (net\<lparr>comments_endpoint := f\<rparr>) w sub tf limit = fetchTop net w sub tf limit"
proof -
  have a: "after_call (net\<lparr>comments_endpoint := f\<rparr>) = after_call net"
    by (simp add: after_call_def fun_eq_iff)
  have r: "requestToken (net\<lparr>comments_endpoint := f\<rparr>) v = requestToken net v" for v
    unfolding requestToken_def a by simp
  have g: "getAccessToken (net\<lparr>comments_endpoint := f\<rparr>) v = getAccessToken net v" for v
    unfolding getAccessToken_def r by simp
  show ?thesis unfolding fetchTop_def a g by (simp split: prod.splits sum.splits)
qed

section \<open>Lemmas: network calls\<close>

lemma getAccessToken_generation:
  "filter is_generation (calls (snd (getAccessToken net w))) = filter is_generation (calls w)"
proof (cases "getAccessToken net w = requestToken net w")
  case True
  then show ?thesis by (simp add: requestToken_calls is_generation_def)
next
  case False
  then have "snd (getAccessToken net w) = w"
    by (auto simp: getAccessToken_def split: option.splits if_splits)
  then show ?thesis by simp
qed

lemma fetchComments_try_generation:
  "filter is_generation (calls (snd (fetchComments_try net w sid lm)))
     = filter is_generation (calls w)"
proof -
  obtain r w1 where g: "getAccessToken net w = (r, w1)" by (cases "getAccessToken net w")
  with getAccessToken_generation [of net w]
  have w1: "filter is_generation (calls w1) = filter is_generation (calls w)" by simp
  have "snd (fetchComments_try net w sid lm) = w1
      \<or> snd (fetchComments_try net w sid lm) = after_call net w1 (CommentsRequest sid lm)"
    using g by (auto simp: fetchComments_try_def Let_def
                     split: sum.splits reply.splits option.splits)
  then show ?thesis using w1 by (auto simp: after_call_def is_generation_def)
qed

lemma fetchComments_generation:
  "filter is_generation (calls (snd (fetchComments net w sid lm)))
     = filter is_generation (calls w)"
proof -
  have "snd (fetchComments net w sid lm) = snd (fetchComments_try net w sid lm)"
    by (simp add: fetchComments_def split: prod.splits sum.splits)
  then show ?thesis by (simp add: fetchComments_try_generation)
qed

lemma fetchCommentsFor_generation:
  "filter is_generation (calls (snd (fetchCommentsFor net w ids)))
     = filter is_generation (calls w)"
proof (induction ids arbitrary: w)
  case Nil
  then show ?case by simp
next
  case (Cons sid ids)
  obtain cs w1 where a: "fetchComments net w sid 10 = (cs, w1)"
    by (cases "fetchComments net w sid 10")
  with fetchComments_generation [of net w sid 10]
  have "filter is_generation (calls w1) = filter is_generation (calls w)" by simp
  with a Cons.IH [of w1] show ?case by (auto split: prod.splits)
qed

lemma fetchTop_generation:
  "filter is_generation (calls (snd (fetchTop net w sub tf limit)))
     = filter is_generation (calls w)"
proof -
  obtain r w1 where g: "getAccessToken net w = (r, w1)" by (cases "getAccessToken net w")
  with getAccessToken_generation [of net w]
  have w1: "filter is_generation (calls w1) = filter is_generation (calls w)" by simp
  have "snd (fetchTop net w sub tf limit) = w1
      \<or> snd (fetchTop net w sub tf limit)
           = after_call net w1 (SubmissionsRequest sub (timeMap tf) limit)"
    using g by (auto simp: fetchTop_def Let_def split: sum.splits reply.splits option.splits)
  then show ?thesis using w1 by (auto simp: after_call_def is_generation_def)
qed

lemma fetchSubredditData_generation:
  "filter is_generation (calls (snd (fetchSubredditData net w sub tf limit)))
     = filter is_generation (calls w)"
proof (cases "fetchTop net w sub tf limit")
  case (Pair r w1)
  with fetchTop_generation [of net w sub tf limit]
  have w1: "filter is_generation (calls w1) = filter is_generation (calls w)" by simp
  show ?thesis
  proof (cases r)
    case (Inl e)
    with Pair w1 show ?thesis by (simp add: fetchSubredditData_Inl)
  next
    case (Inr children)
    with Pair w1 show ?thesis
      by (simp add: fetchSubredditData_Inr fetchCommentsFor_generation)
  qed
qed

lemma getAccessToken_comments_requests:
  "filter is_comments_request (calls (snd (getAccessToken net w)))
     = filter is_comments_request (calls w)"
proof (cases "getAccessToken net w = requestToken net w")
  case True
  then show ?thesis by (simp add: requestToken_calls is_comments_request_def)
next
  case False
  then have "snd (getAccessToken net w) = w"
    by (auto simp: getAccessToken_def split: option.splits if_splits)
  then show ?thesis by simp
qed

lemma fetchComments_requests:
  "filter is_comments_request (calls (snd (fetchComments net w sid lm)))
       = filter is_comments_request (calls w)
   \<or> filter is_comments_request (calls (snd (fetchComments net w sid lm)))
       = filter is_comments_request (calls w) @ [CommentsRequest sid lm]"
proof -
  obtain r w1 where g: "getAccessToken net w = (r, w1)" by (cases "getAccessToken net w")
  with getAccessToken_comments_requests [of net w]
  have w1: "filter is_comments_request (calls w1) = filter is_comments_request (calls w)"
    by simp
  have s: "snd (fetchComments net w sid lm) = snd (fetchComments_try net w sid lm)"
    by (simp add: fetchComments_def split: prod.splits sum.splits)
  have "snd (fetchComments_try net w sid lm) = w1
      \<or> snd (fetchComments_try net w sid lm) = after_call net w1 (CommentsRequest sid lm)"
    using g by (auto simp: fetchComments_try_def Let_def
                     split: sum.splits reply.splits option.splits)
  then show ?thesis using w1 s by (auto simp: after_call_def is_comments_request_def)
qed

lemma fetchCommentsFor_requests:
  "\<exists>ks. subseq ks ids
      \<and> filter is_comments_request (calls (snd (fetchCommentsFor net w ids)))
          = filter is_comments_request (calls w) @ map (\<lambda>i. CommentsRequest i 10) ks"
proof (induction ids arbitrary: w)
  case Nil
  then show ?case by simp
next
  case (Cons sid ids)
  obtain cs w1 where a: "fetchComments net w sid 10 = (cs, w1)"
    by (cases "fetchComments net w sid 10")
  from Cons.IH [of w1] obtain ks where ks: "subseq ks ids"
    "filter is_comments_request (calls (snd (fetchCommentsFor net w1 ids)))
       = filter is_comments_request (calls w1) @ map (\<lambda>i. CommentsRequest i 10) ks"
    by blast
  have e: "snd (fetchCommentsFor net w (sid # ids)) = snd (fetchCommentsFor net w1 ids)"
    using a by (simp split: prod.splits)
  from fetchComments_requests [of net w sid 10] a
  consider "filter is_comments_request (calls w1) = filter is_comments_request (calls w)"
    | "filter is_comments_request (calls w1)
         = filter is_comments_request (calls w) @ [CommentsRequest sid 10]"
    by auto
  then show ?case
  proof cases
    case 1
    have "subseq ks (sid # ids)" using ks(1) by (rule list_emb_Cons)
    then show ?thesis using e ks(2) 1 by auto
  next
    case 2
    have "subseq (sid # ks) (sid # ids)" using ks(1) by simp
    moreover have "filter is_comments_request (calls (snd (fetchCommentsFor net w (sid # ids))))
        = filter is_comments_request (calls w) @ map (\<lambda>i. CommentsRequest i 10) (sid # ks)"
      using e ks(2) 2 by simp
    ultimately show ?thesis by blast
  qed
qed

lemma fetchTop_comments_requests:
  "filter is_comments_request (calls (snd (fetchTop net w sub tf limit)))
     = filter is_comments_request (calls w)"
proof -
  obtain r w1 where g: "getAccessToken net w = (r, w1)" by (cases "getAccessToken net w")
  with getAccessToken_comments_requests [of net w]
  have w1: "filter is_comments_request (calls w1) = filter is_comments_request (calls w)"
    by simp
  have "snd (fetchTop net w sub tf limit) = w1
      \<or> snd (fetchTop net w sub tf limit)
           = after_call net w1 (SubmissionsRequest sub (timeMap tf) limit)"
    using g by (auto simp: fetchTop_def Let_def split: sum.splits reply.splits option.splits)
  then show ?thesis using w1 by (auto simp: after_call_def is_comments_request_def)
qed

section \<open>Lemmas: validation and the comment filters\<close>

lemma validateSubreddit_iff: "isValid (validateSubreddit s) = spec_forum_pattern s"
  by (cases s) (auto simp: validateSubreddit_def spec_forum_pattern_def SUBREDDIT_PATTERN_test_def)

lemma validateQuestion_iff:
  "isValid (validateQuestion q) = (5 \<le> length (trim q) \<and> length (trim q) \<le> 500)"
proof -
  have "trim [] = []" by (simp add: trim_def)
  then show ?thesis by (cases q) (auto simp: validateQuestion_def Let_def)
qed

lemma keepComment_Some:
  "keepComment rc = Some c \<Longrightarrow> body_present c"
  by (auto simp: keepComment_def body_present_def split: option.splits if_splits)

lemma collectComments_body: "c \<in> set (collectComments limit listing) \<Longrightarrow> body_present c"
  by (auto simp: collectComments_def map_filter_def dest: keepComment_Some)

lemma collectComments_length:
  "0 \<le> limit \<Longrightarrow> length (collectComments limit listing) \<le> nat limit"
proof -
  assume "0 \<le> limit"
  have "length (collectComments limit listing) \<le> length (slice0 limit listing)"
    by (simp add: collectComments_def map_filter_def)
  also have "\<dots> \<le> nat limit" using \<open>0 \<le> limit\<close> by (rule slice0_length)
  finally show ?thesis .
qed

lemma askQuestion_comments_eq:
  assumes "0 \<le> limit"
  shows "askQuestion_comments limit listing
           = filter (\<lambda>c. 0 < c_score c) (collectComments limit listing)"
proof -
  have "length (filter (\<lambda>c. 0 < c_score c) (collectComments limit listing))
          \<le> length (collectComments limit listing)" by simp
  also have "\<dots> \<le> nat limit" using assms by (rule collectComments_length)
  finally show ?thesis using assms by (simp add: askQuestion_comments_def slice0_def)
qed

lemma filter_map_filter:
  "filter P (List.map_filter f xs)
     = List.map_filter f (filter (\<lambda>x. case f x of None \<Rightarrow> False | Some y \<Rightarrow> P y) xs)"
  by (induction xs) (auto simp: map_filter_simps split: option.splits)

section \<open>Claims\<close>

text \<open>
  C1, as amended. The route answers with status 400, in the state in which it was
  called and so without any network call, when the forum name or the question is
  missing or empty, and when the model is not one of the two allowed. The pattern and
  the length bounds are those of \<open>validateSubreddit\<close> and \<open>validateQuestion\<close>: the first
  accepts exactly the names of 1 to 50 letters, digits and underscores, the second
  exactly the questions whose trimmed length is between 5 and 500. They are applied by
  the submit handler of the page, which shows the error and sends no request when
  either fails; the route does not apply them.
\<close>

theorem validation_before_network:
  "(or_string (req_subreddit request) [] = [] \<or> or_string (req_question request) [] = [] \<longrightarrow>
       POST net w request = (ApiFailure 400 ''Subreddit and question are required'', w))
   \<and> (or_string (req_subreddit request) [] \<noteq> [] \<and> or_string (req_question request) [] \<noteq> []
        \<and> (case req_model request of None \<Rightarrow> DEFAULT_MODEL | Some m \<Rightarrow> m)
              \<notin> set [''gpt-4o-mini'', ''gpt-3.5-turbo''] \<longrightarrow>
       POST net w request = (ApiFailure 400 ''Invalid model specified'', w))
   \<and> isValid (validateSubreddit s) = spec_forum_pattern s
   \<and> isValid (validateQuestion q) = (5 \<le> length (trim q) \<and> length (trim q) \<le> 500)
   \<and> (\<not> spec_forum_pattern
            (if selectedSubreddit appState = ''custom'' then customSubreddit appState
             else selectedSubreddit appState)
        \<or> length (trim (question appState)) < 5 \<or> 500 < length (trim (question appState)) \<longrightarrow>
       (\<exists>msg. handleSubmitQuestion net w appState = (ToastError msg, w)))"
proof -
  have empty: "POST net w request = (ApiFailure 400 ''Subreddit and question are required'', w)"
    if "or_string (req_subreddit request) [] = [] \<or> or_string (req_question request) [] = []"
    using that by (auto simp: POST_def Let_def)
  have model: "POST net w request = (ApiFailure 400 ''Invalid model specified'', w)"
    if "or_string (req_subreddit request) [] \<noteq> [] \<and> or_string (req_question request) [] \<noteq> []
        \<and> (case req_model request of None \<Rightarrow> DEFAULT_MODEL | Some m \<Rightarrow> m)
              \<notin> set [''gpt-4o-mini'', ''gpt-3.5-turbo'']"
    using that by (auto simp: POST_def Let_def)
  have page: "\<exists>msg. handleSubmitQuestion net w appState = (ToastError msg, w)"
    if "\<not> spec_forum_pattern
            (if selectedSubreddit appState = ''custom'' then customSubreddit appState
             else selectedSubreddit appState)
        \<or> length (trim (question appState)) < 5 \<or> 500 < length (trim (question appState))"
  proof -
    let ?cur = "if selectedSubreddit appState = ''custom'' then customSubreddit appState
             else selectedSubreddit appState"
    from that have "\<not> isValid (validateSubreddit ?cur)
        \<or> \<not> isValid (validateQuestion (question appState))"
      unfolding validateSubreddit_iff validateQuestion_iff by auto
    then show ?thesis by (auto simp: handleSubmitQuestion_def Let_def)
  qed
  show ?thesis
    using empty model page validateSubreddit_iff [of s] validateQuestion_iff [of q] by blast
qed

theorem validation_before_network_witness:
  "POST demo_net start \<lparr>req_subreddit = Some [], req_question = Some ''What is new?'',
                         req_model = None\<rparr>
     = (ApiFailure 400 ''Subreddit and question are required'', start)
   \<and> POST demo_net start \<lparr>req_subreddit = Some ''technology'', req_question = Some ''What is new?'',
                           req_model = Some ''gpt-4''\<rparr>
     = (ApiFailure 400 ''Invalid model specified'', start)
   \<and> \<not> isValid (validateSubreddit ''bad name!'')
   \<and> isValid (validateSubreddit ''AskReddit'')
   \<and> \<not> isValid (validateQuestion ''  hi  '')
   \<and> fst (handleSubmitQuestion demo_net start
             \<lparr>selectedSubreddit = ''custom'', customSubreddit = ''bad name!'',
              question = ''What is new?'', selectedModel = ''gpt-4o-mini''\<rparr>)
       = ToastError ''Subreddit name can only contain letters, numbers, and underscores''
   \<and> snd (handleSubmitQuestion demo_net start
             \<lparr>selectedSubreddit = ''custom'', customSubreddit = ''bad name!'',
              question = ''What is new?'', selectedModel = ''gpt-4o-mini''\<rparr>)
       = start"
proof -
  let ?r1 = "\<lparr>req_subreddit = Some [], req_question = Some ''What is new?'', req_model = None\<rparr>"
  let ?r2 = "\<lparr>req_subreddit = Some ''technology'', req_question = Some ''What is new?'',
              req_model = Some ''gpt-4''\<rparr>"
  let ?st = "\<lparr>selectedSubreddit = ''custom'', customSubreddit = ''bad name!'',
              question = ''What is new?'', selectedModel = ''gpt-4o-mini''\<rparr>"
  have bad: "\<not> spec_forum_pattern ''bad name!''"
    by (simp add: spec_forum_pattern_def is_word_char_def)
  have good: "spec_forum_pattern ''AskReddit''"
    by (simp add: spec_forum_pattern_def is_word_char_def)
  have short: "length (trim ''  hi  '') = 2" by (simp add: trim_def is_whitespace_def)
  have a: "POST demo_net start ?r1 = (ApiFailure 400 ''Subreddit and question are required'', start)"
    using validation_before_network [of ?r1 demo_net start] by (simp add: or_string_def)
  have b: "POST demo_net start ?r2 = (ApiFailure 400 ''Invalid model specified'', start)"
    using validation_before_network [of ?r2 demo_net start] by (simp add: or_string_def)
  have c: "\<not> isValid (validateSubreddit ''bad name!'')"
    using validation_before_network [of ?r1 demo_net start "''bad name!''"] bad by blast
  have d: "isValid (validateSubreddit ''AskReddit'')"
    using validation_before_network [of ?r1 demo_net start "''AskReddit''"] good by blast
  have e: "\<not> isValid (validateQuestion ''  hi  '')"
    using validation_before_network [of ?r1 demo_net start _ "''  hi  ''"] short by simp
  have "\<exists>msg. handleSubmitQuestion demo_net start ?st = (ToastError msg, start)"
    using validation_before_network [of ?r1 demo_net start _ _ ?st] bad by simp
  then have g: "snd (handleSubmitQuestion demo_net start ?st) = start" by auto
  have f: "fst (handleSubmitQuestion demo_net start ?st)
       = ToastError ''Subreddit name can only contain letters, numbers, and underscores''"
    by code_simp
  show ?thesis using a b c d e f g by blast
qed

text \<open>
  C1 as stated fails. The name \<open>bad name!\<close> fails the pattern and the question \<open>hi\<close> is
  shorter than 5 characters, yet the route fetches a token, the submissions and the
  comments, calls the generation collaborator and answers with status 200.
\<close>

theorem validation_before_network_counterexample:
  "\<not> spec_forum_pattern ''bad name!''
   \<and> length (trim ''hi'') < 5
   \<and> response_status
        (fst (POST demo_net start
                \<lparr>req_subreddit = Some ''bad name!'', req_question = Some ''hi'',
                 req_model = None\<rparr>)) = 200
   \<and> calls (snd (POST demo_net start
                \<lparr>req_subreddit = Some ''bad name!'', req_question = Some ''hi'',
                 req_model = None\<rparr>))
       = [TokenRequest, SubmissionsRequest ''bad name!'' ''day'' 25, CommentsRequest ''a'' 10,
          CommentsRequest ''b'' 10, CommentsRequest ''c'' 10, GenerationRequest ''gpt-4o-mini'']"
  by code_simp

text \<open>
  C2. After a token fetch that succeeds and completes at time \<open>T\<close> (the clock of the
  state it returns), the cached expiry is \<open>T\<close> plus 50 minutes; a later
  \<open>getAccessToken\<close> at any time before \<open>T\<close> plus 50 minutes returns the cached
  token and leaves the state, and so the list of network calls, as it is; at or after
  \<open>T\<close> plus 50 minutes it goes to the token endpoint again.
\<close>

theorem token_cache_window:
  assumes "getAccessToken net w = (Inr tok, w')" and "calls w' \<noteq> calls w"
  shows "tokenExpiry w' = Some (now w' + 50 * 60 * 1000)
       \<and> (\<forall>net2 t cs. t < now w' + 50 * 60 * 1000 \<longrightarrow>
             getAccessToken net2 (w'\<lparr>now := t, calls := cs\<rparr>)
               = (Inr tok, w'\<lparr>now := t, calls := cs\<rparr>))
       \<and> (\<forall>net2 t cs. now w' + 50 * 60 * 1000 \<le> t \<longrightarrow>
             getAccessToken net2 (w'\<lparr>now := t, calls := cs\<rparr>)
               = requestToken net2 (w'\<lparr>now := t, calls := cs\<rparr>)
           \<and> calls (snd (getAccessToken net2 (w'\<lparr>now := t, calls := cs\<rparr>)))
               = cs @ [TokenRequest])"
proof -
  from assms have "requestToken net w = (Inr tok, w')" by (rule getAccessToken_fetched)
  then have f: "tok \<noteq> []" "accessToken w' = Some tok"
      "tokenExpiry w' = Some (now w' + 50 * 60 * 1000)"
    using requestToken_Inr by blast+
  have cached: "getAccessToken net2 (w'\<lparr>now := t, calls := cs\<rparr>)
               = (Inr tok, w'\<lparr>now := t, calls := cs\<rparr>)"
    if "t < now w' + 50 * 60 * 1000" for net2 t cs
    using f that by (intro getAccessToken_cached) simp_all
  have expired: "getAccessToken net2 (w'\<lparr>now := t, calls := cs\<rparr>)
               = requestToken net2 (w'\<lparr>now := t, calls := cs\<rparr>)"
    if "now w' + 50 * 60 * 1000 \<le> t" for net2 t cs
    using f that by (intro getAccessToken_expired [where e = "now w' + 50 * 60 * 1000"]) simp_all
  show ?thesis using f(3) cached expired by (simp add: requestToken_calls)
qed

theorem token_cache_window_witness:
  "getAccessToken demo_net start = (Inr ''token-1'', start_fetched)
   \<and> calls start_fetched \<noteq> calls start
   \<and> tokenExpiry start_fetched = Some (100 + 50 * 60 * 1000)
   \<and> getAccessToken demo_net (start_fetched\<lparr>now := 100 + 49 * 60 * 1000, calls := []\<rparr>)
       = (Inr ''token-1'', start_fetched\<lparr>now := 100 + 49 * 60 * 1000, calls := []\<rparr>)
   \<and> calls (snd (getAccessToken demo_net
                   (start_fetched\<lparr>now := 100 + 51 * 60 * 1000, calls := []\<rparr>)))
       = [TokenRequest]"
proof -
  have h1: "getAccessToken demo_net start = (Inr ''token-1'', start_fetched)"
    by (simp add: getAccessToken_def requestToken_def start_def start_fetched_def demo_net_def
          after_call_def ok_def or_string_def)
  have h2: "calls start_fetched \<noteq> calls start"
    by (simp add: start_def start_fetched_def)
  have n: "now start_fetched = 100" by (simp add: start_fetched_def)
  note w = token_cache_window [OF h1 h2]
  from w have a: "tokenExpiry start_fetched = Some (100 + 50 * 60 * 1000)" by (simp add: n)
  from w have "\<forall>net2 t cs. t < now start_fetched + 50 * 60 * 1000 \<longrightarrow>
             getAccessToken net2 (start_fetched\<lparr>now := t, calls := cs\<rparr>)
               = (Inr ''token-1'', start_fetched\<lparr>now := t, calls := cs\<rparr>)" by blast
  then have b: "getAccessToken demo_net (start_fetched\<lparr>now := 100 + 49 * 60 * 1000, calls := []\<rparr>)
       = (Inr ''token-1'', start_fetched\<lparr>now := 100 + 49 * 60 * 1000, calls := []\<rparr>)"
    by (simp add: n)
  from w have "\<forall>net2 t cs. now start_fetched + 50 * 60 * 1000 \<le> t \<longrightarrow>
           calls (snd (getAccessToken net2 (start_fetched\<lparr>now := t, calls := cs\<rparr>)))
               = cs @ [TokenRequest]" by blast
  then have c: "calls (snd (getAccessToken demo_net
                   (start_fetched\<lparr>now := 100 + 51 * 60 * 1000, calls := []\<rparr>))) = [] @ [TokenRequest]"
    by (simp add: n)
  show ?thesis using h1 h2 a b c by simp
qed

text \<open>
  C3. A request that passes the checks of the route, and whose snapshot has no posts or
  normalizes to a text that is empty or shorter than 100 characters, is answered with
  status 404 and the message of missing or insufficient content, in the state in which
  the fetch of the snapshot ended: no call to the generation collaborator is made.
\<close>

theorem insufficient_content_stops_before_generation:
  assumes "or_string (req_subreddit request) [] \<noteq> []"
    and "or_string (req_question request) [] \<noteq> []"
    and "(case req_model request of None \<Rightarrow> DEFAULT_MODEL | Some m \<Rightarrow> m)
           \<in> set [''gpt-4o-mini'', ''gpt-3.5-turbo'']"
    and "fetchSubredditData net w (or_string (req_subreddit request) []) ''24h'' 25
           = (Inr snap, w1)"
    and "posts snap = [] \<or> extractRedditContent (posts snap) (comments snap) = []
           \<or> length (extractRedditContent (posts snap) (comments snap)) < 100"
  shows "POST net w request =
           (ApiFailure 404
              (if posts snap = [] then ''No recent content available for this subreddit''
               else ''Insufficient recent content in this subreddit''), w1)
       \<and> filter is_generation (calls w1) = filter is_generation (calls w)"
proof -
  have "filter is_generation (calls w1) = filter is_generation (calls w)"
    using fetchSubredditData_generation
            [of net w "or_string (req_subreddit request) []" "''24h''" 25] assms(4)
    by simp
  moreover have "POST net w request =
           (ApiFailure 404
              (if posts snap = [] then ''No recent content available for this subreddit''
               else ''Insufficient recent content in this subreddit''), w1)"
    using assms by (auto simp: POST_def Let_def)
  ultimately show ?thesis by simp
qed

theorem insufficient_content_stops_before_generation_witness:
  "POST empty_net start
      \<lparr>req_subreddit = Some ''technology'', req_question = Some ''What are the biggest trends?'',
       req_model = None\<rparr>
     = (ApiFailure 404 ''No recent content available for this subreddit'',
        \<lparr>now = 200, accessToken = Some ''token-1'', tokenExpiry = Some 3000100,
         calls = [TokenRequest, SubmissionsRequest ''technology'' ''day'' 25]\<rparr>)
   \<and> POST sparse_net start
      \<lparr>req_subreddit = Some ''technology'', req_question = Some ''What are the biggest trends?'',
       req_model = Some ''gpt-3.5-turbo''\<rparr>
     = (ApiFailure 404 ''Insufficient recent content in this subreddit'',
        \<lparr>now = 300, accessToken = Some ''token-1'', tokenExpiry = Some 3000100,
         calls = [TokenRequest, SubmissionsRequest ''technology'' ''day'' 25,
                  CommentsRequest ''a'' 10]\<rparr>)"
proof -
  let ?req = "\<lparr>req_subreddit = Some ''technology'',
               req_question = Some ''What are the biggest trends?'', req_model = None\<rparr>"
  let ?w1 = "\<lparr>now = 200, accessToken = Some ''token-1'', tokenExpiry = Some 3000100,
         calls = [TokenRequest, SubmissionsRequest ''technology'' ''day'' 25]\<rparr>"
  let ?snap = "\<lparr>posts = [], comments = [], subreddit = ''technology'', fetchedAt = 200\<rparr>"
  have a: "or_string (req_subreddit ?req) [] \<noteq> []" by (simp add: or_string_def)
  have b: "or_string (req_question ?req) [] \<noteq> []" by (simp add: or_string_def)
  have c: "(case req_model ?req of None \<Rightarrow> DEFAULT_MODEL | Some m \<Rightarrow> m)
           \<in> set [''gpt-4o-mini'', ''gpt-3.5-turbo'']" by (simp add: DEFAULT_MODEL_def)
  have d: "fetchSubredditData empty_net start (or_string (req_subreddit ?req) []) ''24h'' 25
           = (Inr ?snap, ?w1)" by code_simp
  have e: "posts ?snap = [] \<or> extractRedditContent (posts ?snap) (comments ?snap) = []
           \<or> length (extractRedditContent (posts ?snap) (comments ?snap)) < 100" by simp
  note first = insufficient_content_stops_before_generation [OF a b c d e]
  let ?req2 = "\<lparr>req_subreddit = Some ''technology'',
               req_question = Some ''What are the biggest trends?'',
               req_model = Some ''gpt-3.5-turbo''\<rparr>"
  let ?w2 = "\<lparr>now = 300, accessToken = Some ''token-1'', tokenExpiry = Some 3000100,
         calls = [TokenRequest, SubmissionsRequest ''technology'' ''day'' 25,
                  CommentsRequest ''a'' 10]\<rparr>"
  obtain snap2 where d2: "fetchSubredditData sparse_net start
           (or_string (req_subreddit ?req2) []) ''24h'' 25 = (Inr snap2, ?w2)"
    and p2: "posts snap2 \<noteq> []"
    and e2: "length (extractRedditContent (posts snap2) (comments snap2)) = 61"
  proof -
    let ?r = "fetchSubredditData sparse_net start (or_string (req_subreddit ?req2) []) ''24h'' 25"
    have w: "snd ?r = ?w2" by code_simp
    have l: "map_sum id (\<lambda>s. (length (posts s),
               length (extractRedditContent (posts s) (comments s)))) (fst ?r) = Inr (1, 61)"
      by code_simp
    obtain r where "fst ?r = r" by simp
    with l obtain s where s: "fst ?r = Inr s" by (cases r) auto
    with l have n: "length (posts s) = 1"
      and k: "length (extractRedditContent (posts s) (comments s)) = 61" by simp_all
    from n have ne: "posts s \<noteq> []" by auto
    from s w have eq: "?r = (Inr s, ?w2)" by (cases ?r) simp
    show ?thesis using eq ne k by (rule that)
  qed
  have a2: "or_string (req_subreddit ?req2) [] \<noteq> []" by (simp add: or_string_def)
  have b2: "or_string (req_question ?req2) [] \<noteq> []" by (simp add: or_string_def)
  have c2: "(case req_model ?req2 of None \<Rightarrow> DEFAULT_MODEL | Some m \<Rightarrow> m)
           \<in> set [''gpt-4o-mini'', ''gpt-3.5-turbo'']" by simp
  have f2: "posts snap2 = [] \<or> extractRedditContent (posts snap2) (comments snap2) = []
           \<or> length (extractRedditContent (posts snap2) (comments snap2)) < 100"
    using e2 by simp
  note second = insufficient_content_stops_before_generation [OF a2 b2 c2 d2 f2]
  from first second p2 show ?thesis by simp
qed

text \<open>
  C4. The sort of the snapshot puts every list of posts and every list of comments in
  descending order of score, keeps the elements (as a multiset) and keeps the order of
  elements with equal score. The posts of a returned snapshot are the sorted list of
  the retained submissions in upstream order, and its comments are the sorted list of
  the comments fetched for the first five of them, in that order.
\<close>

theorem snapshot_sorted_by_score:
  "sorted_wrt (\<ge>) (map p_score (sortPosts ps))
   \<and> sorted_wrt (\<ge>) (map c_score (sortComments cs))
   \<and> mset (sortPosts ps) = mset ps \<and> mset (sortComments cs) = mset cs
   \<and> (\<forall>k. filter (\<lambda>p. p_score p = k) (sortPosts ps) = filter (\<lambda>p. p_score p = k) ps)
   \<and> (\<forall>k. filter (\<lambda>c. c_score c = k) (sortComments cs) = filter (\<lambda>c. c_score c = k) cs)
   \<and> (\<forall>snap w'. fetchSubredditData net w sub tf limit = (Inr snap, w') \<longrightarrow>
         sorted_wrt (\<ge>) (map p_score (posts snap))
         \<and> sorted_wrt (\<ge>) (map c_score (comments snap))
         \<and> (\<exists>children w1.
               fetchTop net w sub tf limit = (Inr children, w1)
               \<and> posts snap = sortPosts (map toPost (retained (slice0 limit children)))
               \<and> comments snap =
                   sortComments (fst (fetchCommentsFor net w1
                      (map rs_id (take 5 (retained (slice0 limit children))))))))"
proof -
  have sp: "sorted_wrt (\<ge>) (map p_score (sortPosts xs))" for xs
    unfolding sortPosts_def by (rule sorted_desc_sort_key)
  have sc: "sorted_wrt (\<ge>) (map c_score (sortComments xs))" for xs
    unfolding sortComments_def by (rule sorted_desc_sort_key)
  have stp: "filter (\<lambda>p. p_score p = k) (sortPosts ps) = filter (\<lambda>p. p_score p = k) ps" for k
    unfolding sortPosts_def by (rule stable_desc_sort_key)
  have stc: "filter (\<lambda>c. c_score c = k) (sortComments cs) = filter (\<lambda>c. c_score c = k) cs" for k
    unfolding sortComments_def by (rule stable_desc_sort_key)
  have ms: "mset (sortPosts ps) = mset ps \<and> mset (sortComments cs) = mset cs"
    by (simp add: sortPosts_def sortComments_def)
  have snap: "sorted_wrt (\<ge>) (map p_score (posts snap))
         \<and> sorted_wrt (\<ge>) (map c_score (comments snap))
         \<and> (\<exists>children w1.
               fetchTop net w sub tf limit = (Inr children, w1)
               \<and> posts snap = sortPosts (map toPost (retained (slice0 limit children)))
               \<and> comments snap =
                   sortComments (fst (fetchCommentsFor net w1
                      (map rs_id (take 5 (retained (slice0 limit children)))))))"
    if h: "fetchSubredditData net w sub tf limit = (Inr snap, w')" for snap w'
  proof -
    from h obtain children w1 where t: "fetchTop net w sub tf limit = (Inr children, w1)"
      by (rule fetchSubredditData_cases)
    from fetchSubredditData_Inr [OF t] h
    have p: "posts snap = sortPosts (map toPost (retained (slice0 limit children)))"
      and c: "comments snap = sortComments (fst (fetchCommentsFor net w1
                      (map rs_id (take 5 (retained (slice0 limit children))))))"
      by auto
    show ?thesis using t p c sp sc by auto
  qed
  show ?thesis using sp sc stp stc ms snap by blast
qed

theorem snapshot_sorted_by_score_witness:
  "map_sum id (\<lambda>s. map p_score (posts s))
       (fst (fetchSubredditData demo_net start ''technology'' ''24h'' 25)) = Inr [50, 10, 5]
   \<and> map_sum id (\<lambda>s. map c_id (comments s))
       (fst (fetchSubredditData demo_net start ''technology'' ''24h'' 25))
       = Inr [''a3'', ''c3'', ''a1'', ''c1'']
   \<and> (\<exists>snap w'. fetchSubredditData demo_net start ''technology'' ''24h'' 25 = (Inr snap, w')
         \<and> sorted_wrt (\<ge>) (map p_score (posts snap))
         \<and> sorted_wrt (\<ge>) (map c_score (comments snap))
         \<and> posts snap = sortPosts (map toPost (retained (slice0 25 demo_listing))))"
proof -
  let ?r = "fetchSubredditData demo_net start ''technology'' ''24h'' 25"
  have a: "map_sum id (\<lambda>s. map p_score (posts s)) (fst ?r) = Inr [50, 10, 5]"
    by code_simp
  have b: "map_sum id (\<lambda>s. map c_id (comments s)) (fst ?r) = Inr [''a3'', ''c3'', ''a1'', ''c1'']"
    by code_simp
  have t: "fetchTop demo_net start ''technology'' ''24h'' 25
             = (Inr demo_listing, snd (fetchTop demo_net start ''technology'' ''24h'' 25))"
    by (simp add: fetchTop_def getAccessToken_def requestToken_def start_def demo_net_def
          after_call_def ok_def or_string_def)
  from fetchSubredditData_Inr [OF t] obtain snap w' where h: "?r = (Inr snap, w')" by blast
  from snapshot_sorted_by_score [of _ _ demo_net start "''technology''" "''24h''" 25] h
  obtain children w1 where s: "sorted_wrt (\<ge>) (map p_score (posts snap))"
      "sorted_wrt (\<ge>) (map c_score (comments snap))"
      "fetchTop demo_net start ''technology'' ''24h'' 25 = (Inr children, w1)"
      "posts snap = sortPosts (map toPost (retained (slice0 25 children)))"
    by blast
  from s(3) t have "children = demo_listing" by simp
  with s h have "\<exists>snap w'. ?r = (Inr snap, w')
         \<and> sorted_wrt (\<ge>) (map p_score (posts snap))
         \<and> sorted_wrt (\<ge>) (map c_score (comments snap))
         \<and> posts snap = sortPosts (map toPost (retained (slice0 25 demo_listing)))"
    by blast
  with a b show ?thesis by blast
qed

text \<open>
  C5. An error inside \<open>fetchComments\<close> is caught there and the empty list is returned
  in its place. Whenever the token and the request for the submissions succeed, the
  snapshot is returned, and it is returned in the state that is reached by calling
  \<open>fetchComments\<close> for the first five retained submissions, in upstream order, and for
  no other: its posts are the sorted retained submissions, its comments are the sorted
  results of these calls, and the comment requests that the operation adds to the
  network calls are requests for some of these five submissions, in their order, each
  with limit 10. The outcome and the posts do not depend on what the comment endpoint
  answers: with any other comment endpoint the snapshot fails with the same error or
  has the same posts.
\<close>

theorem comment_failures_are_swallowed:
  "(\<forall>sid lm e w'. fetchComments_try net w sid lm = (Inl e, w') \<longrightarrow>
        fetchComments net w sid lm = ([], w'))
   \<and> (\<forall>children w1. fetchTop net w sub tf limit = (Inr children, w1) \<longrightarrow>
        fetchSubredditData net w sub tf limit =
          (Inr \<lparr>posts = sortPosts (map toPost (retained (slice0 limit children))),
                comments = sortComments (fst (fetchCommentsFor net w1
                             (map rs_id (take 5 (retained (slice0 limit children)))))),
                subreddit = sub,
                fetchedAt = now (snd (fetchCommentsFor net w1
                             (map rs_id (take 5 (retained (slice0 limit children))))))\<rparr>,
           snd (fetchCommentsFor net w1
                  (map rs_id (take 5 (retained (slice0 limit children))))))
        \<and> (\<exists>ks. subseq ks (map rs_id (take 5 (retained (slice0 limit children))))
              \<and> length ks \<le> 5
              \<and> filter is_comments_request
                    (calls (snd (fetchSubredditData net w sub tf limit)))
                  = filter is_comments_request (calls w)
                      @ map (\<lambda>i. CommentsRequest i 10) ks))
   \<and> (\<forall>f. map_sum id posts (fst (fetchSubredditData (net\<lparr>comments_endpoint := f\<rparr>) w sub tf limit))
          = map_sum id posts (fst (fetchSubredditData net w sub tf limit)))"
proof -
  have caught: "fetchComments net w sid lm = ([], w')"
    if "fetchComments_try net w sid lm = (Inl e, w')" for sid lm e w'
    using that by (simp add: fetchComments_def)
  have returned: "fetchSubredditData net w sub tf limit =
          (Inr \<lparr>posts = sortPosts (map toPost (retained (slice0 limit children))),
                comments = sortComments (fst (fetchCommentsFor net w1
                             (map rs_id (take 5 (retained (slice0 limit children)))))),
                subreddit = sub,
                fetchedAt = now (snd (fetchCommentsFor net w1
                             (map rs_id (take 5 (retained (slice0 limit children))))))\<rparr>,
           snd (fetchCommentsFor net w1
                  (map rs_id (take 5 (retained (slice0 limit children))))))
        \<and> (\<exists>ks. subseq ks (map rs_id (take 5 (retained (slice0 limit children))))
              \<and> length ks \<le> 5
              \<and> filter is_comments_request
                    (calls (snd (fetchSubredditData net w sub tf limit)))
                  = filter is_comments_request (calls w)
                      @ map (\<lambda>i. CommentsRequest i 10) ks)"
    if top: "fetchTop net w sub tf limit = (Inr children, w1)" for children w1
  proof -
    let ?ids = "map rs_id (take 5 (retained (slice0 limit children)))"
    note eq = fetchSubredditData_Inr [OF top]
    from fetchTop_comments_requests [of net w sub tf limit] top
    have w1: "filter is_comments_request (calls w1) = filter is_comments_request (calls w)"
      by simp
    from fetchCommentsFor_requests [of ?ids net w1] obtain ks where ks: "subseq ks ?ids"
      "filter is_comments_request (calls (snd (fetchCommentsFor net w1 ?ids)))
         = filter is_comments_request (calls w1) @ map (\<lambda>i. CommentsRequest i 10) ks"
      by blast
    from ks(1) have "length ks \<le> length ?ids" by (rule list_emb_length)
    then have len: "length ks \<le> 5" by simp
    have "filter is_comments_request (calls (snd (fetchSubredditData net w sub tf limit)))
         = filter is_comments_request (calls w) @ map (\<lambda>i. CommentsRequest i 10) ks"
      using ks(2) w1 by (simp add: eq)
    with ks(1) len eq show ?thesis by blast
  qed
  have same: "map_sum id posts (fst (fetchSubredditData (net\<lparr>comments_endpoint := f\<rparr>) w sub tf limit))
          = map_sum id posts (fst (fetchSubredditData net w sub tf limit))" for f
  proof (cases "fetchTop net w sub tf limit")
    case (Pair r w1)
    then have other: "fetchTop (net\<lparr>comments_endpoint := f\<rparr>) w sub tf limit = (r, w1)"
      by (simp add: fetchTop_comments_endpoint)
    show ?thesis
    proof (cases r)
      case (Inl e)
      with Pair other show ?thesis by (simp add: fetchSubredditData_Inl)
    next
      case (Inr children)
      with Pair other show ?thesis by (simp add: fetchSubredditData_Inr)
    qed
  qed
  show ?thesis using caught returned same by blast
qed

theorem comment_failures_are_swallowed_witness:
  "fst (fetchComments_try demo_net start_fetched ''b'' 10)
       = Inl (Error ''Error fetching comments: 500'')
   \<and> fst (fetchComments demo_net start_fetched ''b'' 10) = []
   \<and> map_sum id (map p_id \<circ> posts)
       (fst (fetchSubredditData demo_net start ''technology'' ''24h'' 25))
       = Inr [''b'', ''a'', ''c'']
   \<and> (\<exists>snap w'. fetchSubredditData demo_net start ''technology'' ''24h'' 25 = (Inr snap, w')
         \<and> posts snap = sortPosts (map toPost (retained (slice0 25 demo_listing))))
   \<and> map_sum id posts
       (fst (fetchSubredditData (demo_net\<lparr>comments_endpoint := comments_endpoint busy_net\<rparr>)
               start ''technology'' ''24h'' 25))
       = map_sum id posts (fst (fetchSubredditData demo_net start ''technology'' ''24h'' 25))
   \<and> map rs_id (retained (slice0 100 busy_listing))
       = [''a'', ''b'', ''c'', ''d'', ''e'', ''f'', ''g'']
   \<and> snd (fetchSubredditData busy_net start ''busy'' ''week'' 100)
       = snd (fetchCommentsFor busy_net
                (snd (fetchTop busy_net start ''busy'' ''week'' 100))
                (map rs_id (take 5 (retained (slice0 100 busy_listing)))))
   \<and> filter is_comments_request (calls (snd (fetchSubredditData busy_net start ''busy'' ''week'' 100)))
       = map (\<lambda>i. CommentsRequest i 10) [''a'', ''b'', ''c'', ''d'', ''e'']
   \<and> (\<exists>ks. subseq ks (map rs_id (take 5 (retained (slice0 100 busy_listing))))
         \<and> length ks \<le> 5
         \<and> filter is_comments_request
               (calls (snd (fetchSubredditData busy_net start ''busy'' ''week'' 100)))
             = filter is_comments_request (calls start) @ map (\<lambda>i. CommentsRequest i 10) ks)"
proof -
  note t = comment_failures_are_swallowed [of demo_net start_fetched]
  have top: "fetchTop demo_net start ''technology'' ''24h'' 25
             = (Inr demo_listing, snd (fetchTop demo_net start ''technology'' ''24h'' 25))"
    by (simp add: fetchTop_def getAccessToken_def requestToken_def start_def demo_net_def
          after_call_def ok_def or_string_def)
  with comment_failures_are_swallowed [of demo_net start "''technology''" "''24h''" 25]
  have s: "\<exists>snap w'. fetchSubredditData demo_net start ''technology'' ''24h'' 25 = (Inr snap, w')
         \<and> posts snap = sortPosts (map toPost (retained (slice0 25 demo_listing)))"
    by fastforce
  have btop: "fetchTop busy_net start ''busy'' ''week'' 100
             = (Inr busy_listing, snd (fetchTop busy_net start ''busy'' ''week'' 100))"
    by (simp add: fetchTop_def getAccessToken_def requestToken_def start_def demo_net_def
          busy_net_def after_call_def ok_def or_string_def)
  note bt = comment_failures_are_swallowed [of busy_net start "''busy''" "''week''" 100]
  from bt btop have bw: "snd (fetchSubredditData busy_net start ''busy'' ''week'' 100)
       = snd (fetchCommentsFor busy_net
                (snd (fetchTop busy_net start ''busy'' ''week'' 100))
                (map rs_id (take 5 (retained (slice0 100 busy_listing)))))"
    by fastforce
  from bt btop have bk: "\<exists>ks. subseq ks (map rs_id (take 5 (retained (slice0 100 busy_listing))))
         \<and> length ks \<le> 5
         \<and> filter is_comments_request
               (calls (snd (fetchSubredditData busy_net start ''busy'' ''week'' 100)))
             = filter is_comments_request (calls start) @ map (\<lambda>i. CommentsRequest i 10) ks"
    by blast
  have bi: "map rs_id (retained (slice0 100 busy_listing))
       = [''a'', ''b'', ''c'', ''d'', ''e'', ''f'', ''g'']" by code_simp
  have bc: "filter is_comments_request
              (calls (snd (fetchSubredditData busy_net start ''busy'' ''week'' 100)))
       = map (\<lambda>i. CommentsRequest i 10) [''a'', ''b'', ''c'', ''d'', ''e'']" by code_simp
  obtain r w' where h: "fetchComments_try demo_net start_fetched ''b'' 10 = (r, w')"
    by (cases "fetchComments_try demo_net start_fetched ''b'' 10")
  have a: "fst (fetchComments_try demo_net start_fetched ''b'' 10)
       = Inl (Error ''Error fetching comments: 500'')" by code_simp
  with h have "fetchComments_try demo_net start_fetched ''b'' 10
       = (Inl (Error ''Error fetching comments: 500''), w')" by simp
  with t have "fetchComments demo_net start_fetched ''b'' 10 = ([], w')" by blast
  then have b: "fst (fetchComments demo_net start_fetched ''b'' 10) = []" by simp
  have c: "map_sum id (map p_id \<circ> posts)
       (fst (fetchSubredditData demo_net start ''technology'' ''24h'' 25))
       = Inr [''b'', ''a'', ''c'']" by code_simp
  have d: "map_sum id posts
       (fst (fetchSubredditData (demo_net\<lparr>comments_endpoint := comments_endpoint busy_net\<rparr>)
               start ''technology'' ''24h'' 25))
       = map_sum id posts (fst (fetchSubredditData demo_net start ''technology'' ''24h'' 25))"
    using comment_failures_are_swallowed [of demo_net start "''technology''" "''24h''" 25]
    by blast
  show ?thesis using a b c d s bi bw bc bk by blast
qed

text \<open>
  C6, as amended. Every comment filter of the repository caps the upstream listing at
  the limit first and filters afterwards. \<open>fetchComments\<close> of \<open>ask-question\<close> and the
  snoowrap route keep the comments with a body that is present, not deleted and not
  removed and with a positive score. \<open>fetchComments\<close> of \<open>reddit-data\<close> keeps the
  comments with such a body whatever their score, and the result of \<open>ask-question\<close> is
  the list of its comments with positive score, in the same order. No result is longer
  than the limit.
\<close>

theorem comment_filters_compared:
  assumes "0 \<le> limit"
  shows "askQuestion_comments limit listing
           = List.map_filter keepComment (spec_cap_then_filter qualifying (nat limit) listing)
       \<and> redditData_comments limit listing
           = List.map_filter keepComment (take (nat limit) listing)
       \<and> askQuestion_comments limit listing
           = filter (\<lambda>c. 0 < c_score c) (redditData_comments limit listing)
       \<and> snoowrap_comments slisting
           = spec_cap_then_filter (\<lambda>c. body_present c \<and> 0 < c_score c) 10
               (map (\<lambda>c. transformComment c 0) slisting)
       \<and> (\<forall>c \<in> set (askQuestion_comments limit listing). body_present c \<and> 0 < c_score c)
       \<and> (\<forall>c \<in> set (snoowrap_comments slisting). body_present c \<and> 0 < c_score c)
       \<and> (\<forall>c \<in> set (redditData_comments limit listing). body_present c)
       \<and> length (askQuestion_comments limit listing) \<le> nat limit
       \<and> length (redditData_comments limit listing) \<le> nat limit
       \<and> length (snoowrap_comments slisting) \<le> 10"
proof -
  have sl: "slice0 limit listing = take (nat limit) listing"
    using assms by (simp add: slice0_def)
  have a: "askQuestion_comments limit listing
           = filter (\<lambda>c. 0 < c_score c) (redditData_comments limit listing)"
    using assms by (simp add: askQuestion_comments_eq redditData_comments_def)
  have b: "redditData_comments limit listing
           = List.map_filter keepComment (take (nat limit) listing)"
    by (simp add: redditData_comments_def collectComments_def sl)
  have c: "askQuestion_comments limit listing
           = List.map_filter keepComment (spec_cap_then_filter qualifying (nat limit) listing)"
    unfolding a b filter_map_filter spec_cap_then_filter_def qualifying_def by simp
  have d: "snoowrap_comments slisting
           = spec_cap_then_filter (\<lambda>c. body_present c \<and> 0 < c_score c) 10
               (map (\<lambda>c. transformComment c 0) slisting)"
    by (simp add: snoowrap_comments_def spec_cap_then_filter_def body_present_def take_map
          conj_assoc)
  have e: "\<forall>c \<in> set (redditData_comments limit listing). body_present c"
    by (simp add: redditData_comments_def collectComments_body)
  from a e have f: "\<forall>c \<in> set (askQuestion_comments limit listing).
      body_present c \<and> 0 < c_score c" by simp
  have g: "\<forall>c \<in> set (snoowrap_comments slisting). body_present c \<and> 0 < c_score c"
    unfolding d spec_cap_then_filter_def by simp
  have h: "length (redditData_comments limit listing) \<le> nat limit"
    using assms by (simp add: redditData_comments_def collectComments_length)
  have i: "length (askQuestion_comments limit listing) \<le> nat limit"
    using assms by (rule askQuestion_comments_length)
  have "length (snoowrap_comments slisting) \<le> length (take 10 slisting)"
    unfolding snoowrap_comments_def
    by (rule order_trans [OF length_filter_le]) simp
  then have j: "length (snoowrap_comments slisting) \<le> 10" by simp
  show ?thesis using a b c d e f g h i j by blast
qed

theorem comment_filters_compared_witness:
  "(0::int) \<le> 10
   \<and> map c_id (askQuestion_comments 10
        [demo_comment_node ''k1'' 3, demo_comment_node ''k2'' 0, demo_comment_node ''k3'' 7])
       = [''k1'', ''k3'']
   \<and> map c_id (redditData_comments 10
        [demo_comment_node ''k1'' 3, demo_comment_node ''k2'' 0, demo_comment_node ''k3'' 7])
       = [''k1'', ''k2'', ''k3'']
   \<and> askQuestion_comments 10
        [demo_comment_node ''k1'' 3, demo_comment_node ''k2'' 0, demo_comment_node ''k3'' 7]
       = filter (\<lambda>c. 0 < c_score c)
           (redditData_comments 10
              [demo_comment_node ''k1'' 3, demo_comment_node ''k2'' 0, demo_comment_node ''k3'' 7])
   \<and> map c_id (snoowrap_comments
        [SnooComment ''s1'' (Some ''a body'') (Some ''ann'') (Some 2) (Some 0) [],
         SnooComment ''s2'' (Some ''[removed]'') None (Some 9) (Some 0) [],
         SnooComment ''s3'' (Some ''another body'') None (Some (- 1)) (Some 0) []])
       = [''s1'']
   \<and> length (snoowrap_comments
        [SnooComment ''s1'' (Some ''a body'') (Some ''ann'') (Some 2) (Some 0) [],
         SnooComment ''s2'' (Some ''[removed]'') None (Some 9) (Some 0) [],
         SnooComment ''s3'' (Some ''another body'') None (Some (- 1)) (Some 0) []]) \<le> 10"
proof -
  let ?l = "[demo_comment_node ''k1'' 3, demo_comment_node ''k2'' 0, demo_comment_node ''k3'' 7]"
  let ?s = "[SnooComment ''s1'' (Some ''a body'') (Some ''ann'') (Some 2) (Some 0) [],
         SnooComment ''s2'' (Some ''[removed]'') None (Some 9) (Some 0) [],
         SnooComment ''s3'' (Some ''another body'') None (Some (- 1)) (Some 0) []]"
  have z: "(0::int) \<le> 10" by simp
  note t = comment_filters_compared [OF z, of ?l ?s]
  have a: "map c_id (askQuestion_comments 10 ?l) = [''k1'', ''k3'']" by code_simp
  have b: "map c_id (redditData_comments 10 ?l) = [''k1'', ''k2'', ''k3'']" by code_simp
  have c: "map c_id (snoowrap_comments ?s) = [''s1'']" by code_simp
  from t have d: "askQuestion_comments 10 ?l
       = filter (\<lambda>c. 0 < c_score c) (redditData_comments 10 ?l)" by blast
  from t have e: "length (snoowrap_comments ?s) \<le> 10" by blast
  show ?thesis using z a b c d e by blast
qed

text \<open>
  C6 as stated fails. \<open>fetchComments\<close> of \<open>reddit-data\<close> returns a comment of score 0.
  And \<open>fetchComments\<close> of \<open>ask-question\<close> does not exclude before capping: of eleven
  comments, the first of score 0 and ten of score 1, it returns nine, where excluding
  first and capping at ten afterwards gives ten.
\<close>

theorem comment_filters_compared_counterexample:
  "map c_score (redditData_comments 10 [demo_comment_node ''z'' 0]) = [0]
   \<and> length (askQuestion_comments 10
               (demo_comment_node ''n'' 0 # replicate 10 (demo_comment_node ''p'' 1))) = 9
   \<and> length (List.map_filter keepComment
               (spec_filter_then_cap qualifying 10
                  (demo_comment_node ''n'' 0 # replicate 10 (demo_comment_node ''p'' 1)))) = 10"
  by code_simp

text \<open>
  C7. \<open>extractRedditContent\<close> renders the first 10 posts whose body is longer than 50
  characters and the first 15 comments whose body is longer than 30 characters and whose
  score is positive. A post with a body of exactly 50 characters is never rendered, and
  alone it gives the empty text; a post with a body of 51 characters is rendered when
  fewer than 10 qualifying posts stand before it, and alone it gives its block. The
  same holds of comments with 30 and 31 characters and the cap of 15.
\<close>

theorem extractRedditContent_boundaries:
  "selectedPosts ps = take 10 (filter (\<lambda>p. 50 < length (p_selftext p)) ps)
   \<and> selectedComments cs = take 15 (filter (\<lambda>c. 30 < length (c_body c) \<and> 0 < c_score c) cs)
   \<and> length (selectedPosts ps) \<le> 10 \<and> length (selectedComments cs) \<le> 15
   \<and> extractRedditContent ps cs =
        join posts_end_marker
          (filter (\<lambda>s. s \<noteq> [])
             [join post_separator (map renderPost (selectedPosts ps)),
              join post_separator (map renderComment (selectedComments cs))])
   \<and> (\<forall>p. length (p_selftext p) = 50 \<longrightarrow>
          p \<notin> set (selectedPosts ps) \<and> extractRedditContent [p] [] = [])
   \<and> (\<forall>c. length (c_body c) = 30 \<longrightarrow>
          c \<notin> set (selectedComments cs) \<and> extractRedditContent [] [c] = [])
   \<and> (\<forall>p. length (p_selftext p) = 51 \<longrightarrow>
          extractRedditContent [p] [] = renderPost p
          \<and> (\<forall>pre suf. ps = pre @ p # suf
                 \<and> length (filter (\<lambda>q. 50 < length (p_selftext q)) pre) < 10
               \<longrightarrow> p \<in> set (selectedPosts ps)))
   \<and> (\<forall>c. length (c_body c) = 31 \<and> 0 < c_score c \<longrightarrow>
          extractRedditContent [] [c] = renderComment c
          \<and> (\<forall>pre suf. cs = pre @ c # suf
                 \<and> length (filter (\<lambda>d. 30 < length (c_body d) \<and> 0 < c_score d) pre) < 15
               \<longrightarrow> c \<in> set (selectedComments cs)))"
proof -
  have p50: "p \<notin> set (selectedPosts ps) \<and> extractRedditContent [p] [] = []"
    if "length (p_selftext p) = 50" for p
    using that by (auto simp: selectedPosts_eq extract_Nil_iff selectedComments_eq dest: in_set_takeD)
  have c30: "c \<notin> set (selectedComments cs) \<and> extractRedditContent [] [c] = []"
    if "length (c_body c) = 30" for c
    using that by (auto simp: selectedPosts_eq extract_Nil_iff selectedComments_eq dest: in_set_takeD)
  have p51a: "extractRedditContent [p] [] = renderPost p" if "length (p_selftext p) = 51" for p
    using that by (simp add: extract_cases selectedPosts_eq selectedComments_eq postContent_def)
  have p51b: "p \<in> set (selectedPosts ps)"
    if "length (p_selftext p) = 51" and "ps = pre @ p # suf"
      and "length (filter (\<lambda>q. 50 < length (p_selftext q)) pre) < 10" for p pre suf
    unfolding selectedPosts_eq that(2) using that(1,3) by (intro in_take_filter) simp_all
  have c31a: "extractRedditContent [] [c] = renderComment c"
    if "length (c_body c) = 31" and "0 < c_score c" for c
    using that by (simp add: extract_cases selectedPosts_eq selectedComments_eq commentContent_def)
  have c31b: "c \<in> set (selectedComments cs)"
    if "length (c_body c) = 31" and "0 < c_score c" and "cs = pre @ c # suf"
      and "length (filter (\<lambda>d. 30 < length (c_body d) \<and> 0 < c_score d) pre) < 15" for c pre suf
    unfolding selectedComments_eq that(3) using that(1,2,4) by (intro in_take_filter) simp_all
  have shape: "extractRedditContent ps cs =
        join posts_end_marker
          (filter (\<lambda>s. s \<noteq> [])
             [join post_separator (map renderPost (selectedPosts ps)),
              join post_separator (map renderComment (selectedComments cs))])"
    by (simp add: extractRedditContent_def postContent_def commentContent_def)
  have caps: "length (selectedPosts ps) \<le> 10 \<and> length (selectedComments cs) \<le> 15"
    by (simp add: selectedPosts_def selectedComments_def)
  show ?thesis
    using selectedPosts_eq [of ps] selectedComments_eq [of cs] caps shape p50 c30 p51a p51b c31a c31b
    by blast
qed

theorem extractRedditContent_boundaries_witness:
  "length (p_selftext (textPost ''Fifty'' 1 (replicate 50 CHR ''a''))) = 50
   \<and> length (p_selftext (textPost ''Fifty-one'' 2 (replicate 51 CHR ''a''))) = 51
   \<and> textPost ''Fifty'' 1 (replicate 50 CHR ''a'')
        \<notin> set (selectedPosts [textPost ''Fifty'' 1 (replicate 50 CHR ''a''),
                              textPost ''Fifty-one'' 2 (replicate 51 CHR ''a'')])
   \<and> textPost ''Fifty-one'' 2 (replicate 51 CHR ''a'')
        \<in> set (selectedPosts [textPost ''Fifty'' 1 (replicate 50 CHR ''a''),
                              textPost ''Fifty-one'' 2 (replicate 51 CHR ''a'')])
   \<and> extractRedditContent [textPost ''Fifty'' 1 (replicate 50 CHR ''a'')] [] = []
   \<and> extractRedditContent [textPost ''Fifty-one'' 2 (replicate 51 CHR ''a'')] []
        = renderPost (textPost ''Fifty-one'' 2 (replicate 51 CHR ''a''))
   \<and> length (c_body (textComment 3 (replicate 30 CHR ''b''))) = 30
   \<and> extractRedditContent [] [textComment 3 (replicate 30 CHR ''b'')] = []
   \<and> length (c_body (textComment 3 (replicate 31 CHR ''b''))) = 31
   \<and> extractRedditContent [] [textComment 3 (replicate 31 CHR ''b'')]
        = renderComment (textComment 3 (replicate 31 CHR ''b''))
   \<and> textComment 3 (replicate 31 CHR ''b'')
        \<in> set (selectedComments [textComment 3 (replicate 30 CHR ''b''),
                                 textComment 3 (replicate 31 CHR ''b'')])
   \<and> textComment 3 (replicate 30 CHR ''b'')
        \<notin> set (selectedComments [textComment 3 (replicate 30 CHR ''b''),
                                 textComment 3 (replicate 31 CHR ''b'')])"
proof -
  let ?p50 = "textPost ''Fifty'' 1 (replicate 50 CHR ''a'')"
  let ?p51 = "textPost ''Fifty-one'' 2 (replicate 51 CHR ''a'')"
  let ?c30 = "textComment 3 (replicate 30 CHR ''b'')"
  let ?c31 = "textComment 3 (replicate 31 CHR ''b'')"
  note t = extractRedditContent_boundaries [of "[?p50, ?p51]" "[?c30, ?c31]"]
  have l50: "length (p_selftext ?p50) = 50" by (simp add: textPost_def)
  have l51: "length (p_selftext ?p51) = 51" by (simp add: textPost_def)
  have k30: "length (c_body ?c30) = 30" by (simp add: textComment_def)
  have k31: "length (c_body ?c31) = 31 \<and> 0 < c_score ?c31" by (simp add: textComment_def)
  have pre: "[?p50, ?p51] = [?p50] @ ?p51 # []
      \<and> length (filter (\<lambda>q. 50 < length (p_selftext q)) [?p50]) < 10"
    by (simp add: textPost_def)
  from t l50 have a: "?p50 \<notin> set (selectedPosts [?p50, ?p51])
      \<and> extractRedditContent [?p50] [] = []" by blast
  from t l51 pre have b: "extractRedditContent [?p51] [] = renderPost ?p51
      \<and> ?p51 \<in> set (selectedPosts [?p50, ?p51])" by blast
  have pre': "[?c30, ?c31] = [?c30] @ ?c31 # []
      \<and> length (filter (\<lambda>d. 30 < length (c_body d) \<and> 0 < c_score d) [?c30]) < 15"
    by (simp add: textComment_def)
  from t k30 have c: "?c30 \<notin> set (selectedComments [?c30, ?c31])
      \<and> extractRedditContent [] [?c30] = []" by blast
  from t k31 pre' have d: "extractRedditContent [] [?c31] = renderComment ?c31
      \<and> ?c31 \<in> set (selectedComments [?c30, ?c31])" by blast
  show ?thesis using l50 l51 k30 k31 a b c d by simp
qed

text \<open>
  C8, as amended. Of the first \<open>limit\<close> upstream submissions the loop drops those that
  are stickied and turns the others into posts in the order received; the snapshot
  holds these posts sorted by score. A missing or empty author becomes \<open>[deleted]\<close>; a
  missing score, comment count or upvote ratio becomes 0; the creation time is copied
  as it is, so a missing creation time stays missing.
\<close>

theorem submissions_to_posts:
  "fst (processSubmissions net children [] [] w)
     = map toPost (filter (\<lambda>r. rs_stickied r \<noteq> Some True) children)
   \<and> (\<forall>listing w1. fetchTop net w sub tf limit = (Inr listing, w1) \<longrightarrow>
        (\<exists>snap w'. fetchSubredditData net w sub tf limit = (Inr snap, w')
           \<and> posts snap =
               sortPosts (map toPost (filter (\<lambda>r. rs_stickied r \<noteq> Some True)
                                         (slice0 limit listing)))))
   \<and> p_author (toPost r)
       = (case rs_author r of None \<Rightarrow> ''[deleted]''
          | Some a \<Rightarrow> if a = [] then ''[deleted]'' else a)
   \<and> p_score (toPost r) = (case rs_score r of None \<Rightarrow> 0 | Some n \<Rightarrow> n)
   \<and> p_num_comments (toPost r) = (case rs_num_comments r of None \<Rightarrow> 0 | Some n \<Rightarrow> n)
   \<and> p_upvote_ratio (toPost r) = (case rs_upvote_ratio r of None \<Rightarrow> 0 | Some x \<Rightarrow> x)
   \<and> p_created_utc (toPost r) = rs_created_utc r"
proof -
  have r: "retained xs = filter (\<lambda>r. rs_stickied r \<noteq> Some True) xs" for xs
    by (simp add: retained_def stickied_def)
  have loop: "fst (processSubmissions net children [] [] w)
     = map toPost (filter (\<lambda>r. rs_stickied r \<noteq> Some True) children)"
    by (simp add: processSubmissions_eq r)
  have snap: "\<exists>snap w'. fetchSubredditData net w sub tf limit = (Inr snap, w')
           \<and> posts snap =
               sortPosts (map toPost (filter (\<lambda>r. rs_stickied r \<noteq> Some True)
                                         (slice0 limit listing)))"
    if "fetchTop net w sub tf limit = (Inr listing, w1)" for listing w1
    using fetchSubredditData_Inr [OF that] by (simp add: r)
  have fields: "p_author (toPost r)
       = (case rs_author r of None \<Rightarrow> ''[deleted]''
          | Some a \<Rightarrow> if a = [] then ''[deleted]'' else a)
   \<and> p_score (toPost r) = (case rs_score r of None \<Rightarrow> 0 | Some n \<Rightarrow> n)
   \<and> p_num_comments (toPost r) = (case rs_num_comments r of None \<Rightarrow> 0 | Some n \<Rightarrow> n)
   \<and> p_upvote_ratio (toPost r) = (case rs_upvote_ratio r of None \<Rightarrow> 0 | Some x \<Rightarrow> x)
   \<and> p_created_utc (toPost r) = rs_created_utc r"
    by (simp add: toPost_def or_string_def or_zero_def)
  show ?thesis using loop snap fields by blast
qed

theorem submissions_to_posts_witness:
  "map p_id (fst (processSubmissions demo_net demo_listing [] [] start_fetched))
     = [''a'', ''b'', ''c'']
   \<and> (\<exists>snap w'. fetchSubredditData demo_net start ''technology'' ''24h'' 25 = (Inr snap, w')
         \<and> posts snap =
               sortPosts (map toPost (filter (\<lambda>r. rs_stickied r \<noteq> Some True)
                                         (slice0 25 demo_listing))))
   \<and> p_author (toPost (demo_submission ''a'' None False)) = ''[deleted]''
   \<and> p_score (toPost (demo_submission ''a'' None False)) = 0
   \<and> p_created_utc (toPost (demo_submission ''a'' None False)) = None"
proof -
  note t = submissions_to_posts [of demo_net demo_listing start_fetched _ _ _ "demo_submission ''a'' None False"]
  from t have "fst (processSubmissions demo_net demo_listing [] [] start_fetched)
     = map toPost (filter (\<lambda>r. rs_stickied r \<noteq> Some True) demo_listing)" by blast
  then have a: "map p_id (fst (processSubmissions demo_net demo_listing [] [] start_fetched))
     = [''a'', ''b'', ''c'']"
    by (simp add: demo_listing_def demo_submission_def toPost_def)
  have top: "fetchTop demo_net start ''technology'' ''24h'' 25
             = (Inr demo_listing, snd (fetchTop demo_net start ''technology'' ''24h'' 25))"
    by (simp add: fetchTop_def getAccessToken_def requestToken_def start_def demo_net_def
          after_call_def ok_def or_string_def)
  with submissions_to_posts [of demo_net _ start "''technology''" "''24h''" 25]
  have b: "\<exists>snap w'. fetchSubredditData demo_net start ''technology'' ''24h'' 25 = (Inr snap, w')
         \<and> posts snap =
               sortPosts (map toPost (filter (\<lambda>r. rs_stickied r \<noteq> Some True)
                                         (slice0 25 demo_listing)))"
    by blast
  from t have c: "p_author (toPost (demo_submission ''a'' None False)) = ''[deleted]''
      \<and> p_score (toPost (demo_submission ''a'' None False)) = 0
      \<and> p_created_utc (toPost (demo_submission ''a'' None False)) = None"
    by (simp add: demo_submission_def)
  show ?thesis using a b c by blast
qed

text \<open>
  C8 as stated fails for the creation time. The upstream submissions of the example
  carry no \<open>created_utc\<close>, and the posts of the snapshot carry none either, not 0.
\<close>

theorem submissions_to_posts_counterexample:
  "map rs_created_utc demo_listing = [None, None, None, None]
   \<and> map_sum id (map p_created_utc \<circ> posts)
       (fst (fetchSubredditData demo_net start ''technology'' ''24h'' 25))
       = Inr [None, None, None]"
  by code_simp

text \<open>
  C9, as amended. \<open>extractRedditContent\<close> returns the empty text exactly when no post
  and no comment qualifies. Otherwise it is the group of post blocks, the group of
  comment blocks, or, when both groups are non-empty, the post group, the posts-end
  marker and the comment group in this order, so the marker is inserted once and the
  output contains it at least once. Titles are rendered as they are, so the text of
  the marker can occur in a group as well.
\<close>

theorem extractRedditContent_marker:
  "(extractRedditContent ps cs = []) = (selectedPosts ps = [] \<and> selectedComments cs = [])
   \<and> extractRedditContent ps cs =
       (if selectedPosts ps = [] then commentContent cs
        else if selectedComments cs = [] then postContent ps
        else postContent ps @ posts_end_marker @ commentContent cs)
   \<and> (selectedPosts ps \<noteq> [] \<and> selectedComments cs \<noteq> [] \<longrightarrow>
        1 \<le> occurrences posts_end_marker (extractRedditContent ps cs))
   \<and> postContent ps = join post_separator (map renderPost (selectedPosts ps))
   \<and> commentContent cs = join post_separator (map renderComment (selectedComments cs))"
proof -
  have "1 \<le> occurrences posts_end_marker (postContent ps @ posts_end_marker @ commentContent cs)"
    by (rule occurrences_ge1) (simp add: posts_end_marker_def)
  then show ?thesis
    using extract_Nil_iff [of ps cs] extract_cases [of ps cs]
    by (simp add: postContent_def commentContent_def)
qed

theorem extractRedditContent_marker_witness:
  "selectedPosts [textPost ''A title'' 3 (replicate 51 CHR ''a'')] \<noteq> []
   \<and> selectedComments [textComment 2 (replicate 31 CHR ''b'')] \<noteq> []
   \<and> extractRedditContent [textPost ''A title'' 3 (replicate 51 CHR ''a'')]
          [textComment 2 (replicate 31 CHR ''b'')]
       = postContent [textPost ''A title'' 3 (replicate 51 CHR ''a'')] @ posts_end_marker
           @ commentContent [textComment 2 (replicate 31 CHR ''b'')]
   \<and> 1 \<le> occurrences posts_end_marker
            (extractRedditContent [textPost ''A title'' 3 (replicate 51 CHR ''a'')]
               [textComment 2 (replicate 31 CHR ''b'')])"
proof -
  let ?ps = "[textPost ''A title'' 3 (replicate 51 CHR ''a'')]"
  let ?cs = "[textComment 2 (replicate 31 CHR ''b'')]"
  have p: "selectedPosts ?ps \<noteq> []" by (simp add: selectedPosts_def textPost_def)
  have c: "selectedComments ?cs \<noteq> []" by (simp add: selectedComments_def textComment_def)
  note t = extractRedditContent_marker [of ?ps ?cs]
  from t have "extractRedditContent ?ps ?cs =
       (if selectedPosts ?ps = [] then commentContent ?cs
        else if selectedComments ?cs = [] then postContent ?ps
        else postContent ?ps @ posts_end_marker @ commentContent ?cs)" by blast
  with p c have e: "extractRedditContent ?ps ?cs
       = postContent ?ps @ posts_end_marker @ commentContent ?cs" by simp
  from t p c have o: "1 \<le> occurrences posts_end_marker (extractRedditContent ?ps ?cs)"
    by blast
  show ?thesis using p c e o by blast
qed

text \<open>
  C9 as stated fails. A post whose title is the text of the marker qualifies, a comment
  qualifies, and the output contains the marker twice.
\<close>

theorem extractRedditContent_marker_counterexample:
  "selectedPosts [textPost posts_end_marker 3 (replicate 51 CHR ''a'')] \<noteq> []
   \<and> selectedComments [textComment 2 (replicate 31 CHR ''b'')] \<noteq> []
   \<and> occurrences posts_end_marker
        (extractRedditContent [textPost posts_end_marker 3 (replicate 51 CHR ''a'')]
           [textComment 2 (replicate 31 CHR ''b'')]) = 2"
  by code_simp

text \<open>
  C10. One call of \<open>fetchComments\<close> with limit 10 returns at most 10 comments, and the
  comments of a returned snapshot are at most 50, for every limit and every upstream
  response.
\<close>

theorem snapshot_comment_bound:
  "length (fst (fetchComments net w0 sid 10)) \<le> 10
   \<and> (\<forall>snap w'. fetchSubredditData net w sub tf limit = (Inr snap, w') \<longrightarrow>
         length (comments snap) \<le> 50)"
proof -
  have "length (comments snap) \<le> 50"
    if h: "fetchSubredditData net w sub tf limit = (Inr snap, w')" for snap w'
  proof -
    from h obtain children w1 where t: "fetchTop net w sub tf limit = (Inr children, w1)"
      by (rule fetchSubredditData_cases)
    let ?ids = "map rs_id (take 5 (retained (slice0 limit children)))"
    from fetchSubredditData_Inr [OF t] h
    have "comments snap = sortComments (fst (fetchCommentsFor net w1 ?ids))" by auto
    then have "length (comments snap) = length (fst (fetchCommentsFor net w1 ?ids))"
      by (simp add: sortComments_def)
    also have "\<dots> \<le> 10 * length ?ids" by (rule fetchCommentsFor_length)
    also have "\<dots> \<le> 50" by simp
    finally show ?thesis .
  qed
  then show ?thesis using fetchComments_length [of net w0 sid] by blast
qed

theorem snapshot_comment_bound_witness:
  "map_sum id (\<lambda>s. length (posts s)) (fst (fetchSubredditData busy_net start ''busy'' ''week'' 100))
     = Inr 7
   \<and> map_sum id (\<lambda>s. length (comments s))
       (fst (fetchSubredditData busy_net start ''busy'' ''week'' 100)) = Inr 50
   \<and> (\<exists>snap w'. fetchSubredditData busy_net start ''busy'' ''week'' 100 = (Inr snap, w')
         \<and> length (comments snap) \<le> 50)"
proof -
  let ?r = "fetchSubredditData busy_net start ''busy'' ''week'' 100"
  have a: "map_sum id (\<lambda>s. length (posts s)) (fst ?r) = Inr 7" by code_simp
  have b: "map_sum id (\<lambda>s. length (comments s)) (fst ?r) = Inr 50" by code_simp
  obtain r w' where h: "?r = (r, w')" by (cases ?r)
  with a obtain snap where "r = Inr snap" by (cases r) simp_all
  with h have h': "?r = (Inr snap, w')" by simp
  with snapshot_comment_bound [of busy_net start "''x''" start "''busy''" "''week''" 100]
  have "length (comments snap) \<le> 50" by blast
  with h' a b show ?thesis by blast
qed

end
